theory Spec2Isabelle
  imports Main "HOL-Library.Word" "HOL-Library.AList"
begin

unbundle bit_operations_syntax

section \<open>Domain entities (internal/domain/donation/entity.go)\<close>

text \<open>
  Go strings are byte strings and so are Isabelle strings. The status, provider and
  method types of the source are named string types; their constants are the string
  literals of the source. A UUID is an opaque identity, here a natural number; a
  \<open>time.Time\<close> is a number of seconds, and a nil pointer to one is \<open>None\<close>.
\<close>

type_synonym Status = string
type_synonym Provider = string
type_synonym uuid = nat
type_synonym time = nat

definition donation_StatusPending :: Status where "donation_StatusPending = ''pending''"
definition donation_StatusCompleted :: Status where "donation_StatusCompleted = ''completed''"
definition donation_StatusExpired :: Status where "donation_StatusExpired = ''expired''"
definition donation_StatusFailed :: Status where "donation_StatusFailed = ''failed''"
definition donation_StatusCancelled :: Status where "donation_StatusCancelled = ''cancelled''"

definition StatusPending :: Status where "StatusPending = ''pending''"
definition StatusPaid :: Status where "StatusPaid = ''paid''"
definition StatusExpired :: Status where "StatusExpired = ''expired''"
definition StatusFailed :: Status where "StatusFailed = ''failed''"
definition StatusRefunded :: Status where "StatusRefunded = ''refunded''"

definition ProviderMidtrans :: Provider where "ProviderMidtrans = ''midtrans''"
definition ProviderXendit :: Provider where "ProviderXendit = ''xendit''"

record Donation =
  don_ID :: uuid
  DonorName :: string
  DonorEmail :: string
  don_Message :: string
  don_Amount :: int
  don_Status :: Status
  don_Metadata :: "(string \<times> string) list"
  don_PaidAt :: "time option"
  don_CreatedAt :: time
  don_UpdatedAt :: time

record Payment =
  pay_ID :: uuid
  DonationID :: uuid
  pay_Provider :: Provider
  ExternalID :: string
  PaymentMethod :: string
  pay_Amount :: int
  pay_Status :: Status
  QRCodeURL :: string
  VANumber :: string
  DeepLink :: string
  ExpiresAt :: time
  pay_PaidAt :: "time option"
  pay_Metadata :: "(string \<times> string) list"
  pay_CreatedAt :: time
  pay_UpdatedAt :: time

text \<open>The mutators read the clock (\<open>time.Now()\<close>), passed here as \<open>now\<close>.\<close>

definition donation_MarkAsPaid :: "time \<Rightarrow> Donation \<Rightarrow> Donation" where
  "donation_MarkAsPaid now d =
     d\<lparr>don_Status := donation_StatusCompleted, don_PaidAt := Some now, don_UpdatedAt := now\<rparr>"

definition donation_MarkAsExpired :: "time \<Rightarrow> Donation \<Rightarrow> Donation" where
  "donation_MarkAsExpired now d = d\<lparr>don_Status := donation_StatusExpired, don_UpdatedAt := now\<rparr>"

definition donation_MarkAsFailed :: "time \<Rightarrow> Donation \<Rightarrow> Donation" where
  "donation_MarkAsFailed now d = d\<lparr>don_Status := donation_StatusFailed, don_UpdatedAt := now\<rparr>"

definition MarkAsPaid :: "time \<Rightarrow> Payment \<Rightarrow> Payment" where
  "MarkAsPaid now p = p\<lparr>pay_Status := StatusPaid, pay_PaidAt := Some now, pay_UpdatedAt := now\<rparr>"

definition MarkAsExpired :: "time \<Rightarrow> Payment \<Rightarrow> Payment" where
  "MarkAsExpired now p = p\<lparr>pay_Status := StatusExpired, pay_UpdatedAt := now\<rparr>"

definition MarkAsFailed :: "time \<Rightarrow> Payment \<Rightarrow> Payment" where
  "MarkAsFailed now p = p\<lparr>pay_Status := StatusFailed, pay_UpdatedAt := now\<rparr>"

definition IsPaid :: "Payment \<Rightarrow> bool" where
  "IsPaid p = (pay_Status p = StatusPaid)"

section \<open>Provider status mapping (internal/http/handler/webhook_handler.go)\<close>

text \<open>The two \<open>switch\<close> statements, case by case in the order of the source.\<close>

definition mapMidtransStatus :: "string \<Rightarrow> string \<Rightarrow> Status" where
  "mapMidtransStatus transactionStatus fraudStatus =
     (if transactionStatus = ''capture'' then
        (if fraudStatus = ''accept'' \<or> fraudStatus = '''' then StatusPaid else StatusPending)
      else if transactionStatus = ''settlement'' then StatusPaid
      else if transactionStatus = ''pending'' then StatusPending
      else if transactionStatus = ''deny'' \<or> transactionStatus = ''cancel'' then StatusFailed
      else if transactionStatus = ''expire'' then StatusExpired
      else StatusPending)"

definition mapXenditStatus :: "string \<Rightarrow> Status" where
  "mapXenditStatus status =
     (if status = ''PAID'' \<or> status = ''SETTLED'' \<or> status = ''COMPLETED'' then StatusPaid
      else if status = ''PENDING'' \<or> status = ''ACTIVE'' then StatusPending
      else if status = ''EXPIRED'' then StatusExpired
      else if status = ''FAILED'' then StatusFailed
      else StatusPending)"

section \<open>Midtrans signature verification\<close>

text \<open>
  \<open>[]byte(s)\<close> reads the bytes of a string; \<open>string(bs)\<close> is its inverse.
\<close>

type_synonym byte = "8 word"

definition byte_of_char :: "char \<Rightarrow> byte" where
  "byte_of_char c = of_nat (of_char c)"

definition bytes :: "string \<Rightarrow> byte list" where
  "bytes s = map byte_of_char s"

text \<open>
  \<open>hex.EncodeToString\<close>: two characters of the table \<open>0123456789abcdef\<close> for
  each byte, the high nibble first.
\<close>

definition hextable :: string where
  "hextable = ''0123456789abcdef''"

fun hex_EncodeToString :: "byte list \<Rightarrow> string" where
  "hex_EncodeToString [] = []"
| "hex_EncodeToString (v # src) =
     hextable ! unat (drop_bit 4 v) # hextable ! unat (v AND 0x0f) # hex_EncodeToString src"

text \<open>
  \<open>hmac.Equal\<close> is \<open>subtle.ConstantTimeCompare(mac1, mac2) == 1\<close>. The comparison returns 0
  at once when the lengths differ; otherwise its loop runs the index \<open>i\<close> over the positions
  and accumulates \<open>v |= x[i] ^ y[i]\<close>. The loop is modelled with its two variables, the
  index and the accumulator.

  The running time of the comparison is part of what it is used for, so the model keeps it:
  \<open>ConstantTimeCompare\<close>, \<open>hmac.Equal\<close> and the signature check built on them return,
  next to their Go result, the number of loop iterations the call has executed (one byte
  operation \<open>v |= x[i] ^ y[i]\<close> each). A comparison that leaves its loop at the first
  differing byte would return a count that depends on the bytes compared.
\<close>

function ct_loop :: "byte list \<Rightarrow> byte list \<Rightarrow> nat \<Rightarrow> byte \<Rightarrow> nat \<times> byte" where
  "ct_loop x y i v =
     (if i < length x then ct_loop x y (Suc i) (v OR (x ! i XOR y ! i)) else (i, v))"
  by pat_completeness auto
termination
  by (relation "measure (\<lambda>(x, y, i, v). length x - i)") auto

declare ct_loop.simps [simp del]

definition ConstantTimeByteEq :: "byte \<Rightarrow> byte \<Rightarrow> int" where
  "ConstantTimeByteEq x y = uint (drop_bit 31 ((ucast (x XOR y) :: 32 word) - 1))"

definition ConstantTimeCompare :: "byte list \<Rightarrow> byte list \<Rightarrow> int \<times> nat" where
  "ConstantTimeCompare x y =
     (if length x \<noteq> length y then (0, 0)
      else (case ct_loop x y 0 0 of (i, v) \<Rightarrow> (ConstantTimeByteEq v 0, i)))"

definition hmac_Equal :: "byte list \<Rightarrow> byte list \<Rightarrow> bool \<times> nat" where
  "hmac_Equal mac1 mac2 =
     (case ConstantTimeCompare mac1 mac2 of (res, iterations) \<Rightarrow> (res = 1, iterations))"

record MidtransWebhook =
  OrderID :: string
  TransactionID :: string
  TransactionStatus :: string
  TransactionTime :: string
  SettlementTime :: string
  StatusCode :: string
  GrossAmount :: string
  PaymentType :: string
  SignatureKey :: string
  FraudStatus :: string

record Config =
  Midtrans_ServerKey :: string
  Xendit_WebhookToken :: string
  App_Environment :: string

text \<open>
  A Go \<open>error\<close> is its message; \<open>fmt.Errorf("...: %w", err)\<close> prefixes it.
\<close>

datatype error = Error string

fun Errorf :: "string \<Rightarrow> error \<Rightarrow> error" where
  "Errorf prefix (Error msg) = Error (prefix @ msg)"

text \<open>
  What the service and the handler take from outside the repository is gathered in one
  record: the pure functions of the libraries they call (SHA-512, from the bytes written
  to the digest \<open>hash.Sum(nil)\<close>; the JSON decoder of the webhook body; time parsing
  and formatting; the text form of a UUID), and, for each call of an external service that
  can fail, the error that the call returns if it fails (\<open>None\<close>: it succeeds). Each
  of these calls is made at most once on any path through one operation.
\<close>

record env =
  sha512_Sum :: "byte list \<Rightarrow> byte list"
  json_Unmarshal :: "string \<Rightarrow> error + MidtransWebhook"
  time_Parse :: "string \<Rightarrow> string \<Rightarrow> time"
  time_Format :: "time \<Rightarrow> string"
  uuid_String :: "uuid \<Rightarrow> string"
  setnx_fault :: "error option"
  pay_get_fault :: "error option"
  pay_update_fault :: "error option"
  don_get_fault :: "error option"
  don_update_fault :: "error option"
  publish_fault :: "error option"
  log_create_fault :: "error option"

text \<open>
  \<open>verifyMidtransSignature\<close> returns what the handler tests, and with it the number of
  loop iterations of the comparison it has made.
\<close>

definition verifyMidtransSignature ::
  "env \<Rightarrow> Config \<Rightarrow> MidtransWebhook \<Rightarrow> bool \<times> nat" where
  "verifyMidtransSignature e config webhook =
     (let data = OrderID webhook @ StatusCode webhook @ GrossAmount webhook
                   @ Midtrans_ServerKey config;
          expectedSignature = hex_EncodeToString (sha512_Sum e (bytes data))
      in hmac_Equal (bytes expectedSignature) (bytes (SignatureKey webhook)))"

text \<open>
  A panic of the Go runtime: a method call on a nil interface value, closing a channel that
  is closed, sending on a closed channel.
\<close>

datatype panic = NilPointerDereference | CloseOfClosedChannel | SendOnClosedChannel

section \<open>The stores behind the service\<close>

text \<open>
  The service reads and writes four external stores: the \<open>payments\<close> and
  \<open>donations\<close> tables and the \<open>webhook_logs\<close> table of the database, the Redis
  key space used by the cache (each key with its value and the time at which it expires),
  and the messages published on Redis channels. The clock is part of the state; an
  operation reads it and the surroundings advance it between operations.
\<close>

record WebhookLog =
  log_ID :: uuid
  log_Provider :: Provider
  EventType :: string
  log_ExternalID :: string
  log_RawPayload :: "string option"
  log_Payload :: string
  log_Headers :: "(string \<times> string) list"
  log_Signature :: string
  IPAddress :: string
  log_CreatedAt :: time

record WebhookLogRow =
  row_id :: uuid
  row_provider :: string
  row_event_type :: string
  row_external_id :: string
  row_raw_payload :: string
  row_signature :: string
  row_ip_address :: string
  row_created_at :: time

record DonationEvent =
  ev_Type :: string
  ev_ID :: string
  ev_DonorName :: string
  ev_Message :: string
  ev_Amount :: int
  ev_PaidAt :: string

record world =
  clock :: time
  payments :: "Payment list"
  donations :: "Donation list"
  webhook_logs :: "WebhookLogRow list"
  cache :: "(string \<times> string \<times> time) list"
  published :: "(string \<times> DonationEvent) list"

subsection \<open>Redis cache and pub/sub (internal/repository/redis)\<close>

definition Hour :: nat where
  "Hour = 3600"

definition KeyPrefixWebhook :: string where
  "KeyPrefixWebhook = ''webhook:''"

definition IdempotencyKey :: "string \<Rightarrow> string \<Rightarrow> string \<Rightarrow> string" where
  "IdempotencyKey provider externalID transactionID =
     KeyPrefixWebhook @ provider @ '':'' @ externalID @ '':'' @ transactionID"

text \<open>A key is live while the clock has not reached its expiry time.\<close>

definition key_live :: "world \<Rightarrow> string \<Rightarrow> bool" where
  "key_live w key =
     (case map_of (cache w) key of None \<Rightarrow> False | Some (v, expiry) \<Rightarrow> clock w < expiry)"

text \<open>
  The client's \<open>SetNX(ctx, key, data, ttl).Result()\<close>: Redis sets the key with the
  expiry \<open>ttl\<close> only if no live key is there and answers whether it did. When the
  command fails the client returns the zero value \<open>false\<close> together with the error.
\<close>

definition client_SetNX ::
  "error option \<Rightarrow> world \<Rightarrow> string \<Rightarrow> string \<Rightarrow> nat \<Rightarrow> (bool \<times> error option) \<times> world" where
  "client_SetNX fault w key data ttl =
     (case fault of
        Some err \<Rightarrow> ((False, Some err), w)
      | None \<Rightarrow>
          if key_live w key then ((False, None), w)
          else ((True, None), w\<lparr>cache := AList.update key (data, clock w + ttl) (cache w)\<rparr>))"

text \<open>\<open>json.Marshal\<close> of a string value: the quoted string; it does not fail.\<close>

definition json_Marshal_string :: "string \<Rightarrow> error + string" where
  "json_Marshal_string v = Inr (CHR 0x22 # v @ [CHR 0x22])"

definition Cache_SetNX ::
  "env \<Rightarrow> world \<Rightarrow> string \<Rightarrow> string \<Rightarrow> nat \<Rightarrow> (bool \<times> error option) \<times> world" where
  "Cache_SetNX e w key v ttl =
     (case json_Marshal_string v of
        Inl err \<Rightarrow> ((False, Some (Errorf ''failed to marshal value: '' err)), w)
      | Inr data \<Rightarrow> client_SetNX (setnx_fault e) w key data ttl)"

definition ChannelDonationsNew :: string where
  "ChannelDonationsNew = ''donations:new''"

definition NewDonationEvent ::
  "string \<Rightarrow> string \<Rightarrow> string \<Rightarrow> int \<Rightarrow> string \<Rightarrow> DonationEvent" where
  "NewDonationEvent ident donorName message amount paidAt =
     \<lparr>ev_Type = ''new_donation'', ev_ID = ident, ev_DonorName = donorName,
      ev_Message = message, ev_Amount = amount, ev_PaidAt = paidAt\<rparr>"

definition PublishDonationEvent :: "env \<Rightarrow> world \<Rightarrow> DonationEvent \<Rightarrow> error option \<times> world" where
  "PublishDonationEvent e w event =
     (case publish_fault e of
        Some err \<Rightarrow> (Some (Errorf ''failed to publish message: '' err), w)
      | None \<Rightarrow> (None, w\<lparr>published := published w @ [(ChannelDonationsNew, event)]\<rparr>))"

subsection \<open>Repositories (internal/repository/postgres/payment_repo.go)\<close>

text \<open>
  \<open>QueryRow\<close> with \<open>scanPayment\<close> yields the first row matching the \<open>WHERE\<close>
  clause or the error \<open>payment not found\<close>; \<open>Exec\<close> of an \<open>UPDATE\<close> rewrites the
  listed columns of every row with the given id, sets \<open>updated_at\<close> to the time of the
  database, and reports \<open>payment not found\<close> when no row was affected.
\<close>

definition scanPayment :: "error option \<Rightarrow> Payment option \<Rightarrow> error + Payment" where
  "scanPayment fault row =
     (case fault of
        Some err \<Rightarrow> Inl (Errorf ''failed to scan payment: '' err)
      | None \<Rightarrow> (case row of None \<Rightarrow> Inl (Error ''payment not found'') | Some p \<Rightarrow> Inr p))"

definition payment_GetByID :: "env \<Rightarrow> world \<Rightarrow> uuid \<Rightarrow> error + Payment" where
  "payment_GetByID e w ident =
     scanPayment (pay_get_fault e) (find (\<lambda>p. pay_ID p = ident) (payments w))"

definition payment_GetByExternalID :: "env \<Rightarrow> world \<Rightarrow> Provider \<Rightarrow> string \<Rightarrow> error + Payment" where
  "payment_GetByExternalID e w provider externalID =
     scanPayment (pay_get_fault e)
       (find (\<lambda>p. pay_Provider p = provider \<and> ExternalID p = externalID) (payments w))"

definition payment_Update :: "env \<Rightarrow> world \<Rightarrow> Payment \<Rightarrow> error + world" where
  "payment_Update e w p =
     (case pay_update_fault e of
        Some err \<Rightarrow> Inl (Errorf ''failed to update payment: '' err)
      | None \<Rightarrow>
          if \<not> (\<exists>r \<in> set (payments w). pay_ID r = pay_ID p) then Inl (Error ''payment not found'')
          else Inr (w\<lparr>payments :=
                 map (\<lambda>r. if pay_ID r = pay_ID p
                          then r\<lparr>ExternalID := ExternalID p, pay_Status := pay_Status p,
                                 QRCodeURL := QRCodeURL p, VANumber := VANumber p,
                                 DeepLink := DeepLink p, pay_PaidAt := pay_PaidAt p,
                                 pay_Metadata := pay_Metadata p, pay_UpdatedAt := clock w\<rparr>
                          else r) (payments w)\<rparr>))"

definition scanDonation :: "error option \<Rightarrow> Donation option \<Rightarrow> error + Donation" where
  "scanDonation fault row =
     (case fault of
        Some err \<Rightarrow> Inl (Errorf ''failed to scan donation: '' err)
      | None \<Rightarrow> (case row of None \<Rightarrow> Inl (Error ''donation not found'') | Some d \<Rightarrow> Inr d))"

definition donation_GetByID :: "env \<Rightarrow> world \<Rightarrow> uuid \<Rightarrow> error + Donation" where
  "donation_GetByID e w ident =
     scanDonation (don_get_fault e) (find (\<lambda>d. don_ID d = ident) (donations w))"

definition donation_Update :: "env \<Rightarrow> world \<Rightarrow> Donation \<Rightarrow> error + world" where
  "donation_Update e w d =
     (case don_update_fault e of
        Some err \<Rightarrow> Inl (Errorf ''failed to update donation: '' err)
      | None \<Rightarrow>
          if \<not> (\<exists>r \<in> set (donations w). don_ID r = don_ID d) then Inl (Error ''donation not found'')
          else Inr (w\<lparr>donations :=
                 map (\<lambda>r. if don_ID r = don_ID d
                          then r\<lparr>DonorName := DonorName d, DonorEmail := DonorEmail d,
                                 don_Message := don_Message d, don_Amount := don_Amount d,
                                 don_Status := don_Status d, don_Metadata := don_Metadata d,
                                 don_PaidAt := don_PaidAt d, don_UpdatedAt := clock w\<rparr>
                          else r) (donations w)\<rparr>))"

text \<open>
  \<open>WebhookLogRepository.Create\<close> inserts the columns \<open>id, provider, event_type,
  external_id, raw_payload, signature, ip_address, created_at\<close>, with \<open>raw_payload\<close>
  the JSON of the entry's \<open>RawPayload\<close> map (\<open>null\<close> for the nil map, here
  \<open>None\<close>). The column \<open>id\<close> is the primary key of the table, so an insert with
  an id that is already there fails; any other way the insert can fail is a fault of the
  call.
\<close>

definition log_row :: "WebhookLog \<Rightarrow> WebhookLogRow" where
  "log_row l =
     \<lparr>row_id = log_ID l, row_provider = log_Provider l, row_event_type = EventType l,
      row_external_id = log_ExternalID l,
      row_raw_payload = (case log_RawPayload l of None \<Rightarrow> ''null'' | Some js \<Rightarrow> js),
      row_signature = log_Signature l, row_ip_address = IPAddress l,
      row_created_at = log_CreatedAt l\<rparr>"

definition WebhookLog_Create :: "env \<Rightarrow> world \<Rightarrow> WebhookLog \<Rightarrow> error + world" where
  "WebhookLog_Create e w l =
     (case log_create_fault e of
        Some err \<Rightarrow> Inl (Errorf ''failed to create webhook log: '' err)
      | None \<Rightarrow>
          if \<exists>r \<in> set (webhook_logs w). row_id r = log_ID l
          then Inl (Errorf ''failed to create webhook log: ''
                      (Error ''duplicate key value violates unique constraint''))
          else Inr (w\<lparr>webhook_logs := webhook_logs w @ [log_row l]\<rparr>))"

section \<open>DonationService (internal/service)\<close>

record ProcessWebhookParams =
  pw_Provider :: Provider
  pw_OrderID :: string
  pw_TransactionID :: string
  pw_Status :: Status
  pw_PaidAt :: time
  RawPayload :: string

text \<open>
  \<open>don.PaidAt.Format(time.RFC3339)\<close> is read right after \<open>don.MarkAsPaid()\<close> has set
  the pointer, so the \<open>None\<close> case below is never taken.
\<close>

definition PaidAt_Format :: "env \<Rightarrow> Donation \<Rightarrow> string" where
  "PaidAt_Format e don = (case don_PaidAt don of Some t \<Rightarrow> time_Format e t | None \<Rightarrow> [])"

definition donation_event :: "env \<Rightarrow> Donation \<Rightarrow> DonationEvent" where
  "donation_event e don =
     NewDonationEvent (uuid_String e (don_ID don)) (DonorName don) (don_Message don)
       (don_Amount don) (PaidAt_Format e don)"

text \<open>
  The result of an operation of the service is the returned error (\<open>None\<close> for
  \<open>nil\<close>) and the stores as the operation leaves them. The three arms of the
  \<open>switch\<close> over the reported status come first, each as the source writes it.
\<close>

definition ProcessWebhook_paid :: "env \<Rightarrow> world \<Rightarrow> Payment \<Rightarrow> error option \<times> world" where
  "ProcessWebhook_paid e w pay0 =
     (let pay = MarkAsPaid (clock w) pay0 in
      case payment_Update e w pay of
        Inl err \<Rightarrow> (Some (Errorf ''failed to update payment: '' err), w)
      | Inr w1 \<Rightarrow>
          (case donation_GetByID e w1 (DonationID pay) of
             Inl err \<Rightarrow> (Some (Errorf ''donation not found: '' err), w1)
           | Inr don0 \<Rightarrow>
               (let don = donation_MarkAsPaid (clock w1) don0 in
                case donation_Update e w1 don of
                  Inl err \<Rightarrow> (Some (Errorf ''failed to update donation: '' err), w1)
                | Inr w2 \<Rightarrow> (None, snd (PublishDonationEvent e w2 (donation_event e don))))))"

definition ProcessWebhook_expired :: "env \<Rightarrow> world \<Rightarrow> Payment \<Rightarrow> error option \<times> world" where
  "ProcessWebhook_expired e w pay0 =
     (let pay = MarkAsExpired (clock w) pay0 in
      case payment_Update e w pay of
        Inl err \<Rightarrow> (Some (Errorf ''failed to update payment: '' err), w)
      | Inr w1 \<Rightarrow>
          (case donation_GetByID e w1 (DonationID pay) of
             Inl err \<Rightarrow> (None, w1)
           | Inr don0 \<Rightarrow>
               (case donation_Update e w1 (donation_MarkAsExpired (clock w1) don0) of
                  Inl err \<Rightarrow> (None, w1)
                | Inr w2 \<Rightarrow> (None, w2))))"

definition ProcessWebhook_failed :: "env \<Rightarrow> world \<Rightarrow> Payment \<Rightarrow> error option \<times> world" where
  "ProcessWebhook_failed e w pay0 =
     (let pay = MarkAsFailed (clock w) pay0 in
      case payment_Update e w pay of
        Inl err \<Rightarrow> (Some (Errorf ''failed to update payment: '' err), w)
      | Inr w1 \<Rightarrow>
          (case donation_GetByID e w1 (DonationID pay) of
             Inl err \<Rightarrow> (None, w1)
           | Inr don0 \<Rightarrow>
               (case donation_Update e w1 (donation_MarkAsFailed (clock w1) don0) of
                  Inl err \<Rightarrow> (None, w1)
                | Inr w2 \<Rightarrow> (None, w2))))"

definition ProcessWebhook :: "env \<Rightarrow> world \<Rightarrow> ProcessWebhookParams \<Rightarrow> error option \<times> world" where
  "ProcessWebhook e w params =
     (let idempotencyKey =
            IdempotencyKey (pw_Provider params) (pw_OrderID params) (pw_TransactionID params);
          ((set_ok, err), w1) = Cache_SetNX e w idempotencyKey ''processing'' (24 * Hour)
      in if \<not> set_ok then (None, w1)
         else
           (case payment_GetByExternalID e w1 (pw_Provider params) (pw_OrderID params) of
              Inl err \<Rightarrow> (Some (Errorf ''payment not found: '' err), w1)
            | Inr pay \<Rightarrow>
                if IsPaid pay then (None, w1)
                else if pw_Status params = StatusPaid then ProcessWebhook_paid e w1 pay
                else if pw_Status params = StatusExpired then ProcessWebhook_expired e w1 pay
                else if pw_Status params = StatusFailed then ProcessWebhook_failed e w1 pay
                else (None, w1)))"

text \<open>
  \<open>ManualReconcile\<close> loads the payment and its donation, applies the requested status
  to both in memory (publishing the event for \<open>paid\<close>, whose error it drops), annotates
  the payment's metadata and then writes the payment and the donation back.
\<close>

definition ManualReconcile ::
  "env \<Rightarrow> world \<Rightarrow> uuid \<Rightarrow> Status \<Rightarrow> string \<Rightarrow> error option \<times> world" where
  "ManualReconcile e w paymentID status reason =
     (case payment_GetByID e w paymentID of
        Inl err \<Rightarrow> (Some (Errorf ''payment not found: '' err), w)
      | Inr pay0 \<Rightarrow>
          (case donation_GetByID e w (DonationID pay0) of
             Inl err \<Rightarrow> (Some (Errorf ''donation not found: '' err), w)
           | Inr don0 \<Rightarrow>
               (let (pay1, don, w1) =
                      (if status = StatusPaid then
                         (let d = donation_MarkAsPaid (clock w) don0 in
                          (MarkAsPaid (clock w) pay0, d,
                           snd (PublishDonationEvent e w (donation_event e d))))
                       else if status = StatusFailed then
                         (MarkAsFailed (clock w) pay0, donation_MarkAsFailed (clock w) don0, w)
                       else (pay0, don0, w));
                    pay = pay1\<lparr>pay_Metadata :=
                            AList.update ''reconciliation_at'' (time_Format e (clock w))
                              (AList.update ''reconciliation_reason'' reason (pay_Metadata pay1))\<rparr>
                in case payment_Update e w1 pay of
                     Inl err \<Rightarrow> (Some (Errorf ''failed to update payment: '' err), w1)
                   | Inr w2 \<Rightarrow>
                       (case donation_Update e w2 don of
                          Inl err \<Rightarrow> (Some (Errorf ''failed to update donation: '' err), w2)
                        | Inr w3 \<Rightarrow> (None, w3)))))"

section \<open>Webhook ingress (internal/http/handler/webhook_handler.go)\<close>

text \<open>
  A request is the outcome of reading its body, its headers as \<open>r.Header.Get\<close> answers
  for them (the empty string for an absent header) and the remote address. A response is
  the status code and the JSON body written. The handler holds its configuration and its
  webhook log repository, an interface value that is either nil or the repository over the
  database.
\<close>

datatype WebhookLogRepository = nil_WebhookLogRepository | postgres_WebhookLogRepository

record WebhookHandler =
  webhookLogRepo :: WebhookLogRepository
  h_config :: Config

definition NewWebhookHandler :: "WebhookLogRepository \<Rightarrow> Config \<Rightarrow> WebhookHandler" where
  "NewWebhookHandler logRepo cfg = \<lparr>webhookLogRepo = logRepo, h_config = cfg\<rparr>"

text \<open>
  \<open>NewServer\<close> (internal/http/server.go) builds the only webhook handler of the program,
  with \<open>handler.NewWebhookHandler(donationService, nil, cfg, logger)\<close>.
\<close>

definition NewServer_webhookHandler :: "Config \<Rightarrow> WebhookHandler" where
  "NewServer_webhookHandler cfg = NewWebhookHandler nil_WebhookLogRepository cfg"

record Request =
  req_Body :: "error + string"
  Header_Get :: "string \<Rightarrow> string"
  RemoteAddr :: string

datatype ResponseBody =
  ErrorResponse string string
| JSONObject "(string \<times> string) list"
| NoBody

record Response =
  resp_Status :: nat
  resp_Body :: ResponseBody

definition StatusOK :: nat where "StatusOK = 200"
definition StatusBadRequest :: nat where "StatusBadRequest = 400"
definition StatusUnauthorized :: nat where "StatusUnauthorized = 401"
definition StatusInternalServerError :: nat where "StatusInternalServerError = 500"

definition respondJSON :: "nat \<Rightarrow> ResponseBody \<Rightarrow> Response" where
  "respondJSON status payload = \<lparr>resp_Status = status, resp_Body = payload\<rparr>"

definition respondError :: "nat \<Rightarrow> string \<Rightarrow> string \<Rightarrow> Response" where
  "respondError status code message = respondJSON status (ErrorResponse code message)"

definition maskString :: "string \<Rightarrow> string" where
  "maskString s =
     (if length s \<le> 8 then ''****'' else take 4 s @ ''****'' @ drop (length s - 4) s)"

definition relevantHeaders :: "string list" where
  "relevantHeaders =
     [''Content-Type'', ''User-Agent'', ''X-Request-Id'', ''X-Callback-Token'', ''X-Event-Type'']"

fun extractHeaders_loop ::
  "Request \<Rightarrow> string list \<Rightarrow> (string \<times> string) list \<Rightarrow> (string \<times> string) list" where
  "extractHeaders_loop r [] headers = headers"
| "extractHeaders_loop r (name # names) headers =
     (let val = Header_Get r name in
      if val \<noteq> '''' then
        extractHeaders_loop r names
          (AList.update name (if name = ''X-Callback-Token'' then maskString val else val) headers)
      else extractHeaders_loop r names headers)"

definition extractHeaders :: "Request \<Rightarrow> (string \<times> string) list" where
  "extractHeaders r = extractHeaders_loop r relevantHeaders []"

definition getClientIP :: "Request \<Rightarrow> string" where
  "getClientIP r =
     (let forwarded = Header_Get r ''X-Forwarded-For'' in
      if forwarded \<noteq> '''' then forwarded
      else let realIP = Header_Get r ''X-Real-IP'' in
        if realIP \<noteq> '''' then realIP else RemoteAddr r)"

text \<open>
  \<open>logWebhook\<close> builds the log entry (its \<open>ID\<close>, \<open>ExternalID\<close>,
  \<open>RawPayload\<close> and \<open>Signature\<close> stay the zero values) and asks the repository to
  insert it; a failure of the insert is only reported to the logger. The call
  \<open>h.webhookLogRepo.Create\<close> on a nil repository is a nil dereference: the handler
  panics there.
\<close>

definition new_log_entry :: "world \<Rightarrow> Request \<Rightarrow> Provider \<Rightarrow> string \<Rightarrow> WebhookLog" where
  "new_log_entry w r provider body =
     \<lparr>log_ID = 0, log_Provider = provider, EventType = Header_Get r ''x-event-type'',
      log_ExternalID = '''', log_RawPayload = None, log_Payload = body,
      log_Headers = extractHeaders r, log_Signature = '''', IPAddress = getClientIP r,
      log_CreatedAt = clock w\<rparr>"

definition logWebhook ::
  "env \<Rightarrow> WebhookHandler \<Rightarrow> world \<Rightarrow> Request \<Rightarrow> Provider \<Rightarrow> string \<Rightarrow> panic + world" where
  "logWebhook e h w r provider body =
     (case webhookLogRepo h of
        nil_WebhookLogRepository \<Rightarrow> Inl NilPointerDereference
      | postgres_WebhookLogRepository \<Rightarrow>
          (case WebhookLog_Create e w (new_log_entry w r provider body) of
             Inl err \<Rightarrow> Inr w
           | Inr w1 \<Rightarrow> Inr w1))"

text \<open>
  The handler ends with the response it has written or with a panic, in either case with
  the stores as it leaves them.
\<close>

definition HandleMidtrans ::
  "env \<Rightarrow> WebhookHandler \<Rightarrow> world \<Rightarrow> Request \<Rightarrow> (panic + Response) \<times> world" where
  "HandleMidtrans e h w r =
     (case req_Body r of
        Inl err \<Rightarrow>
          (Inr (respondError StatusBadRequest ''INVALID_BODY'' ''Failed to read request body''), w)
      | Inr body \<Rightarrow>
          (case logWebhook e h w r ProviderMidtrans body of
             Inl p \<Rightarrow> (Inl p, w)
           | Inr w1 \<Rightarrow>
               (case json_Unmarshal e body of
                  Inl err \<Rightarrow>
                    (Inr (respondError StatusBadRequest ''INVALID_JSON''
                            ''Invalid webhook payload''), w1)
                | Inr webhook \<Rightarrow>
                    if \<not> fst (verifyMidtransSignature e (h_config h) webhook) then
                      (Inr (respondError StatusUnauthorized ''INVALID_SIGNATURE''
                              ''Invalid webhook signature''), w1)
                    else
                      (let status = mapMidtransStatus (TransactionStatus webhook)
                                      (FraudStatus webhook);
                           paidAt = (if SettlementTime webhook \<noteq> ''''
                                     then time_Parse e ''2006-01-02 15:04:05''
                                            (SettlementTime webhook)
                                     else 0);
                           (err, w2) = ProcessWebhook e w1
                             \<lparr>pw_Provider = ProviderMidtrans, pw_OrderID = OrderID webhook,
                              pw_TransactionID = TransactionID webhook, pw_Status = status,
                              pw_PaidAt = paidAt, RawPayload = body\<rparr>
                       in case err of
                            Some (Error msg) \<Rightarrow>
                              (Inr (respondJSON StatusOK
                                      (JSONObject [(''status'', ''error''), (''message'', msg)])),
                               w2)
                          | None \<Rightarrow>
                              (Inr (respondJSON StatusOK (JSONObject [(''status'', ''ok'')])),
                               w2)))))"

text \<open>
  The route \<open>POST /api/v1/webhooks/midtrans\<close> of the server: the handler that
  \<open>NewServer\<close> built, behind the router's \<open>Recoverer\<close> middleware, which answers a
  panic of the handler with the status 500 and no body.
\<close>

definition Recoverer :: "(panic + Response) \<times> world \<Rightarrow> Response \<times> world" where
  "Recoverer served =
     (case served of
        (Inl p, w) \<Rightarrow> (\<lparr>resp_Status = StatusInternalServerError, resp_Body = NoBody\<rparr>, w)
      | (Inr response, w) \<Rightarrow> (response, w))"

definition POST_webhooks_midtrans :: "env \<Rightarrow> Config \<Rightarrow> world \<Rightarrow> Request \<Rightarrow> Response \<times> world" where
  "POST_webhooks_midtrans e cfg w r = Recoverer (HandleMidtrans e (NewServer_webhookHandler cfg) w r)"

section \<open>Connection hub (internal/realtime/websocket/hub.go)\<close>

text \<open>
  A \<open>*Client\<close> is an address into a heap of client objects. The outbound queue
  \<open>send\<close> of a client is a buffered Go channel of capacity \<open>sendBufferSize\<close>: the
  messages buffered and whether the channel has been closed. The registry
  \<open>map[string]map[*Client]bool\<close> is an association list from channel names to the
  member addresses, both without duplicates; the order of a list stands for the order in
  which \<open>range\<close> happens to visit a Go map. The hub's own request channels
  (\<open>unregister\<close> and \<open>broadcast\<close>, capacity 256 each) are the lists of requests
  buffered in them.
\<close>

type_synonym addr = nat

record Client =
  cl_id :: string
  cl_channel :: string
  send :: "string list"
  send_closed :: bool
  clientType :: string
  userID :: string

record BroadcastMessage =
  Channel :: string
  Message :: string

record Hub =
  clients :: "(string \<times> addr list) list"
  unregister :: "addr list"
  broadcast :: "BroadcastMessage list"
  heap :: "addr \<Rightarrow> Client"

definition sendBufferSize :: nat where
  "sendBufferSize = 256"

definition hub_chan_cap :: nat where
  "hub_chan_cap = 256"

text \<open>
  An operation of the hub ends in one of three ways: it returns (\<open>Done\<close>), it stops at
  a send on a full request channel waiting for a receiver (\<open>Blocked\<close>, with the state
  reached), or the runtime panics.
\<close>

datatype 'a outcome = Done 'a | Blocked 'a | Panic panic

definition registerClient :: "Hub \<Rightarrow> addr \<Rightarrow> Hub" where
  "registerClient h client =
     (let ch = cl_channel (heap h client);
          members = (case map_of (clients h) ch of None \<Rightarrow> [] | Some ms \<Rightarrow> ms)
      in h\<lparr>clients := AList.update ch (if client \<in> set members then members
                                          else members @ [client]) (clients h)\<rparr>)"

definition unregisterClient :: "Hub \<Rightarrow> addr \<Rightarrow> Hub outcome" where
  "unregisterClient h client =
     (let ch = cl_channel (heap h client) in
      case map_of (clients h) ch of
        None \<Rightarrow> Done h
      | Some members \<Rightarrow>
          if client \<in> set members then
            (let members1 = removeAll client members in
             if send_closed (heap h client) then Panic CloseOfClosedChannel
             else
               (let h1 = h\<lparr>clients := AList.update ch members1 (clients h),
                           heap := (heap h)(client := (heap h client)\<lparr>send_closed := True\<rparr>)\<rparr>
                in if length members1 = 0
                   then Done (h1\<lparr>clients := AList.delete ch (clients h1)\<rparr>)
                   else Done h1))
          else Done h)"

text \<open>
  The loop of \<open>broadcastToChannel\<close> over the members: the \<open>select\<close> puts the
  message into the member's queue when the buffer has room, and otherwise sends the member
  to the hub's \<open>unregister\<close> channel, a send that waits when that channel is full.
\<close>

fun broadcast_loop :: "Hub \<Rightarrow> string \<Rightarrow> addr list \<Rightarrow> Hub outcome" where
  "broadcast_loop h m [] = Done h"
| "broadcast_loop h m (client # rest) =
     (let c = heap h client in
      if send_closed c then Panic SendOnClosedChannel
      else if length (send c) < sendBufferSize then
        broadcast_loop (h\<lparr>heap := (heap h)(client := c\<lparr>send := send c @ [m]\<rparr>)\<rparr>) m rest
      else if length (unregister h) < hub_chan_cap then
        broadcast_loop (h\<lparr>unregister := unregister h @ [client]\<rparr>) m rest
      else Blocked h)"

definition broadcastToChannel :: "Hub \<Rightarrow> BroadcastMessage \<Rightarrow> Hub outcome" where
  "broadcastToChannel h msg =
     (case map_of (clients h) (Channel msg) of
        None \<Rightarrow> Done h
      | Some members \<Rightarrow> broadcast_loop h (Message msg) members)"

text \<open>
  \<open>BroadcastDonation\<close> encodes the event as a socket message and queues one broadcast
  request for every registered channel whose name is longer than eight bytes and starts
  with \<open>overlay:\<close>. The encoder and the time stamp are given; an encoding error ends
  the call with nothing queued.
\<close>

datatype json_val = JString string | JInt int

record OutgoingMessage =
  msg_Type :: string
  msg_Data :: "(string \<times> json_val) list"
  Timestamp :: string

definition donation_message :: "string \<Rightarrow> DonationEvent \<Rightarrow> OutgoingMessage" where
  "donation_message timestamp event =
     \<lparr>msg_Type = ''donation'',
      msg_Data = [(''id'', JString (ev_ID event)), (''donor_name'', JString (ev_DonorName event)),
                  (''message'', JString (ev_Message event)), (''amount'', JInt (ev_Amount event)),
                  (''paid_at'', JString (ev_PaidAt event))],
      Timestamp = timestamp\<rparr>"

fun BroadcastDonation_loop :: "Hub \<Rightarrow> string \<Rightarrow> string list \<Rightarrow> Hub outcome" where
  "BroadcastDonation_loop h data [] = Done h"
| "BroadcastDonation_loop h data (channel # rest) =
     (if length channel > 8 \<and> take 8 channel = ''overlay:'' then
        (if length (broadcast h) < hub_chan_cap then
           BroadcastDonation_loop
             (h\<lparr>broadcast := broadcast h @ [\<lparr>Channel = channel, Message = data\<rparr>]\<rparr>) data rest
         else Blocked h)
      else BroadcastDonation_loop h data rest)"

definition BroadcastDonation ::
  "(OutgoingMessage \<Rightarrow> error + string) \<Rightarrow> string \<Rightarrow> Hub \<Rightarrow> DonationEvent \<Rightarrow> Hub outcome" where
  "BroadcastDonation json_Marshal timestamp h event =
     (case json_Marshal (donation_message timestamp event) of
        Inl err \<Rightarrow> Done h
      | Inr data \<Rightarrow> BroadcastDonation_loop h data (map fst (clients h)))"

text \<open>
  The states the hub can be in: channel names and the members of a channel are without
  duplicates, every member is registered under its own channel name, no channel is left
  without members, and the queue of a registered member is open and within its capacity.
\<close>

definition wf_hub :: "Hub \<Rightarrow> bool" where
  "wf_hub h =
     (distinct (map fst (clients h)) \<and>
      (\<forall>(ch, members) \<in> set (clients h).
         distinct members \<and> members \<noteq> [] \<and>
         (\<forall>c \<in> set members.
            cl_channel (heap h c) = ch \<and> \<not> send_closed (heap h c) \<and>
            length (send (heap h c)) \<le> sendBufferSize)))"

text \<open>
  A client is registered when it is a member of the channel it names; the state an
  operation has reached is the one it returned or stopped in.
\<close>

definition registered :: "Hub \<Rightarrow> addr \<Rightarrow> bool" where
  "registered h c =
     (case map_of (clients h) (cl_channel (heap h c)) of
        None \<Rightarrow> False
      | Some members \<Rightarrow> c \<in> set members)"

fun reached :: "'a outcome \<Rightarrow> 'a option" where
  "reached (Done h) = Some h"
| "reached (Blocked h) = Some h"
| "reached (Panic p) = None"

subsection \<open>Concrete hub states\<close>

text \<open>
  Three overlay connections on \<open>overlay:T1\<close>, the second with a full queue; the same
  hub with 256 requests already waiting in its \<open>unregister\<close> channel; and a hub with one
  overlay and one admin connection.
\<close>

definition a_client :: "string \<Rightarrow> string list \<Rightarrow> Client" where
  "a_client ch queue =
     \<lparr>cl_id = ''c'', cl_channel = ch, send = queue, send_closed = False,
      clientType = take 5 ch, userID = drop 8 ch\<rparr>"

definition hub3 :: Hub where
  "hub3 =
     \<lparr>clients = [(''overlay:T1'', [1, 2, 3])], unregister = [], broadcast = [],
      heap = (\<lambda>a. if a = 2 then a_client ''overlay:T1'' (replicate 256 ''old'')
                   else a_client ''overlay:T1'' [])\<rparr>"

definition hub3_busy :: Hub where
  "hub3_busy = hub3\<lparr>unregister := replicate 256 7\<rparr>"

definition hub_mixed :: Hub where
  "hub_mixed =
     \<lparr>clients = [(''overlay:T1'', [1]), (''admin:u1'', [2])], unregister = [], broadcast = [],
      heap = (\<lambda>a. if a = 2 then a_client ''admin:u1'' [] else a_client ''overlay:T1'' [])\<rparr>"

subsection \<open>Concrete service states\<close>

text \<open>
  One pending Midtrans payment \<open>DON-abc\<close> with its donation, an empty key space, and
  an environment in which every external call succeeds. The stand-in for SHA-512 returns
  the two bytes \<open>ab 01\<close>; the stand-in decoder knows two bodies, \<open>forged\<close> and
  \<open>signed\<close>, which differ in the signature they carry.
\<close>

definition pay0 :: Payment where
  "pay0 =
     \<lparr>pay_ID = 1, DonationID = 10, pay_Provider = ProviderMidtrans, ExternalID = ''DON-abc'',
      PaymentMethod = ''qris'', pay_Amount = 50000, pay_Status = StatusPending,
      QRCodeURL = '''', VANumber = '''', DeepLink = '''', ExpiresAt = 90000,
      pay_PaidAt = None, pay_Metadata = [], pay_CreatedAt = 0, pay_UpdatedAt = 0\<rparr>"

definition don0 :: Donation where
  "don0 =
     \<lparr>don_ID = 10, DonorName = ''Ann'', DonorEmail = '''', don_Message = ''hi'',
      don_Amount = 50000, don_Status = donation_StatusPending, don_Metadata = [],
      don_PaidAt = None, don_CreatedAt = 0, don_UpdatedAt = 0\<rparr>"

definition world0 :: world where
  "world0 =
     \<lparr>clock = 1000, payments = [pay0], donations = [don0], webhook_logs = [],
      cache = [], published = []\<rparr>"

definition world_paid :: world where
  "world_paid =
     world0\<lparr>payments := [pay0\<lparr>pay_Status := StatusPaid, pay_PaidAt := Some 500\<rparr>],
            donations := [don0\<lparr>don_Status := donation_StatusCompleted, don_PaidAt := Some 500\<rparr>]\<rparr>"

definition world_claimed :: world where
  "world_claimed =
     world0\<lparr>cache := [(''webhook:midtrans:DON-abc:tx1'', (CHR 0x22 # ''processing'' @ [CHR 0x22], 87400))]\<rparr>"

definition world_nopay :: world where
  "world_nopay = world0\<lparr>payments := [], donations := []\<rparr>"

definition webhook0 :: "string \<Rightarrow> MidtransWebhook" where
  "webhook0 signature =
     \<lparr>OrderID = ''DON-abc'', TransactionID = ''tx1'', TransactionStatus = ''settlement'',
      TransactionTime = '''', SettlementTime = '''', StatusCode = ''200'',
      GrossAmount = ''50000.00'', PaymentType = ''qris'', SignatureKey = signature,
      FraudStatus = ''''\<rparr>"

definition decode0 :: "string \<Rightarrow> error + MidtransWebhook" where
  "decode0 body =
     (if body = ''forged'' then Inr (webhook0 ''0000'')
      else if body = ''signed'' then Inr (webhook0 ''ab01'')
      else Inl (Error ''invalid character''))"

definition env0 :: env where
  "env0 =
     \<lparr>sha512_Sum = (\<lambda>data. [0xAB, 0x01]), json_Unmarshal = decode0,
      time_Parse = (\<lambda>layout v. 0), time_Format = (\<lambda>t. ''T''), uuid_String = (\<lambda>u. ''U''),
      setnx_fault = None, pay_get_fault = None, pay_update_fault = None,
      don_get_fault = None, don_update_fault = None, publish_fault = None,
      log_create_fault = None\<rparr>"

definition env_cache_down :: env where
  "env_cache_down = env0\<lparr>setnx_fault := Some (Error ''dial tcp: connection refused'')\<rparr>"

definition params0 :: "Status \<Rightarrow> ProcessWebhookParams" where
  "params0 status =
     \<lparr>pw_Provider = ProviderMidtrans, pw_OrderID = ''DON-abc'', pw_TransactionID = ''tx1'',
      pw_Status = status, pw_PaidAt = 0, RawPayload = ''signed''\<rparr>"

definition config0 :: Config where
  "config0 =
     \<lparr>Midtrans_ServerKey = ''SB-Mid-server-key'', Xendit_WebhookToken = ''token'',
      App_Environment = ''development''\<rparr>"

definition request0 :: "string \<Rightarrow> Request" where
  "request0 body =
     \<lparr>req_Body = Inr body,
      Header_Get = (\<lambda>name. if name = ''X-Forwarded-For'' then ''203.0.113.7'' else ''''),
      RemoteAddr = ''10.0.0.2:4431''\<rparr>"

section \<open>Properties of the status mapping\<close>

lemmas status_defs =
  StatusPending_def StatusPaid_def StatusExpired_def StatusFailed_def StatusRefunded_def
  donation_StatusPending_def donation_StatusCompleted_def donation_StatusExpired_def
  donation_StatusFailed_def donation_StatusCancelled_def

text \<open>
  C5, as stated, fails: the claim maps every Midtrans \<open>capture\<close> to paid and every
  Xendit value outside its list to pending, but a \<open>capture\<close> whose fraud status is
  \<open>challenge\<close> is mapped to pending, and the unlisted Xendit value \<open>COMPLETED\<close>
  is mapped to paid.
\<close>

theorem mapStatus_counterexample:
  "mapMidtransStatus ''capture'' ''challenge'' \<noteq> StatusPaid
   \<and> mapXenditStatus ''COMPLETED'' \<noteq> StatusPending"
  by (simp add: mapMidtransStatus_def mapXenditStatus_def status_defs)

text \<open>
  C5, amended: Midtrans \<open>capture\<close> maps to paid when the fraud status is \<open>accept\<close>
  or empty and to pending otherwise; \<open>settlement\<close> maps to paid, \<open>pending\<close> to
  pending, \<open>deny\<close> and \<open>cancel\<close> to failed, \<open>expire\<close> to expired. Xendit
  \<open>PAID\<close>, \<open>SETTLED\<close> and \<open>COMPLETED\<close> map to paid, \<open>PENDING\<close> and
  \<open>ACTIVE\<close> to pending, \<open>EXPIRED\<close> to expired, \<open>FAILED\<close> to failed. Every
  other value of either provider maps to pending.
\<close>

theorem mapStatus_table:
  "(fraud = ''accept'' \<or> fraud = '''' \<longrightarrow> mapMidtransStatus ''capture'' fraud = StatusPaid)
   \<and> (fraud \<noteq> ''accept'' \<and> fraud \<noteq> '''' \<longrightarrow> mapMidtransStatus ''capture'' fraud = StatusPending)
   \<and> mapMidtransStatus ''settlement'' fraud = StatusPaid
   \<and> mapMidtransStatus ''pending'' fraud = StatusPending
   \<and> mapMidtransStatus ''deny'' fraud = StatusFailed
   \<and> mapMidtransStatus ''cancel'' fraud = StatusFailed
   \<and> mapMidtransStatus ''expire'' fraud = StatusExpired
   \<and> (ts \<notin> {''capture'', ''settlement'', ''pending'', ''deny'', ''cancel'', ''expire''}
        \<longrightarrow> mapMidtransStatus ts fraud = StatusPending)
   \<and> mapXenditStatus ''PAID'' = StatusPaid
   \<and> mapXenditStatus ''SETTLED'' = StatusPaid
   \<and> mapXenditStatus ''COMPLETED'' = StatusPaid
   \<and> mapXenditStatus ''PENDING'' = StatusPending
   \<and> mapXenditStatus ''ACTIVE'' = StatusPending
   \<and> mapXenditStatus ''EXPIRED'' = StatusExpired
   \<and> mapXenditStatus ''FAILED'' = StatusFailed
   \<and> (xs \<notin> {''PAID'', ''SETTLED'', ''COMPLETED'', ''PENDING'', ''ACTIVE'', ''EXPIRED'', ''FAILED''}
        \<longrightarrow> mapXenditStatus xs = StatusPending)"
  by (simp add: mapMidtransStatus_def mapXenditStatus_def)

theorem mapStatus_table_witness:
  "mapMidtransStatus ''capture'' ''accept'' = StatusPaid
   \<and> mapMidtransStatus ''capture'' ''challenge'' = StatusPending
   \<and> mapMidtransStatus ''refund'' ''challenge'' = StatusPending
   \<and> mapXenditStatus ''VOIDED'' = StatusPending"
  using mapStatus_table [of "''accept''" "''refund''" "''VOIDED''"]
        mapStatus_table [of "''challenge''" "''refund''" "''VOIDED''"]
  by simp

section \<open>Properties of the signature check\<close>

lemma byte_of_char_inj: "byte_of_char c = byte_of_char d \<longleftrightarrow> c = d"
proof
  assume "byte_of_char c = byte_of_char d"
  then have "unat (of_nat (of_char c) :: byte) = unat (of_nat (of_char d) :: byte)"
    by (simp add: byte_of_char_def)
  then have "(of_char c :: nat) mod 256 = of_char d mod 256"
    by (simp add: unat_of_nat)
  then show "c = d" by simp
qed simp

lemma bytes_inj: "bytes s = bytes t \<longleftrightarrow> s = t"
  unfolding bytes_def using byte_of_char_inj
  by (metis (no_types) inj_map_eq_map injI)

lemma ct_loop_index: "i \<le> length x \<Longrightarrow> fst (ct_loop x y i v) = length x"
  by (induction x y i v rule: ct_loop.induct) (subst ct_loop.simps, auto)

lemma or_xor_zero: "(v::byte) OR (a XOR b) = 0 \<longleftrightarrow> v = 0 \<and> a = b"
  by (auto simp: bit_eq_iff bit_simps)

lemma ct_loop_zero:
  "length x = length y \<Longrightarrow> i \<le> length x \<Longrightarrow>
   snd (ct_loop x y i v) = 0 \<longleftrightarrow> v = 0 \<and> drop i x = drop i y"
proof (induction x y i v rule: ct_loop.induct)
  case (1 x y i v)
  show ?case
  proof (cases "i < length x")
    case True
    then have d: "drop i x = x ! i # drop (Suc i) x" "drop i y = y ! i # drop (Suc i) y"
      using 1(2) by (simp_all add: Cons_nth_drop_Suc)
    from True 1 show ?thesis
      by (subst ct_loop.simps) (auto simp: d or_xor_zero)
  next
    case False
    with 1 show ?thesis by (subst ct_loop.simps) simp
  qed
qed

lemma ConstantTimeByteEq_zero: "ConstantTimeByteEq v 0 = 1 \<longleftrightarrow> v = 0"
proof (cases "v = 0")
  case True
  have "drop_bit 31 (- 1 :: 32 word) = 1" by (simp add: drop_bit_eq_div)
  then show ?thesis using True by (simp add: ConstantTimeByteEq_def)
next
  case False
  let ?w = "ucast v :: 32 word"
  have v256: "unat v < 256" using unsigned_less[of v, where 'a=nat] by simp
  have u: "unat ?w = unat v" using v256 by (simp add: unsigned_ucast_eq take_bit_eq_mod)
  have nz: "?w \<noteq> 0" using False u by (metis unat_eq_zero)
  have lt: "unat ?w < 256" using v256 u by simp
  have "unat (?w - 1) = unat ?w - 1" using nz by (rule unat_minus_one)
  then have "unat (?w - 1) < 2 ^ 31" using lt by simp
  moreover have "unat (drop_bit 31 (?w - 1)) = unat (?w - 1) div 2 ^ 31"
    by (subst unat_drop_bit_eq) (rule drop_bit_eq_div)
  ultimately have "unat (drop_bit 31 (?w - 1)) = 0"
    by (simp only: div_less)
  then have "drop_bit 31 (?w - 1) = 0" by (simp add: unat_eq_zero)
  then show ?thesis using False by (simp add: ConstantTimeByteEq_def)
qed

lemma hmac_Equal_iff: "fst (hmac_Equal x y) \<longleftrightarrow> x = y"
proof (cases "length x = length y")
  case True
  obtain i v where c: "ct_loop x y 0 0 = (i, v)" by (cases "ct_loop x y 0 0")
  from True have "snd (ct_loop x y 0 0) = 0 \<longleftrightarrow> x = y"
    using ct_loop_zero [of x y 0 0] by simp
  with c have "v = 0 \<longleftrightarrow> x = y" by simp
  with True c show ?thesis
    by (simp add: hmac_Equal_def ConstantTimeCompare_def ConstantTimeByteEq_zero)
next
  case False
  then show ?thesis by (auto simp: hmac_Equal_def ConstantTimeCompare_def)
qed

lemma hmac_Equal_iterations:
  "snd (hmac_Equal x y) = (if length x = length y then length x else 0)"
proof (cases "length x = length y")
  case True
  obtain i v where c: "ct_loop x y 0 0 = (i, v)" by (cases "ct_loop x y 0 0")
  have "fst (ct_loop x y 0 0) = length x" by (simp add: ct_loop_index)
  with c have "i = length x" by simp
  with True c show ?thesis by (simp add: hmac_Equal_def ConstantTimeCompare_def)
next
  case False
  then show ?thesis by (simp add: hmac_Equal_def ConstantTimeCompare_def)
qed

lemma hex_digit_lower: "n < 16 \<Longrightarrow> hextable ! n \<in> set ''0123456789abcdef''"
  unfolding hextable_def by (rule nth_mem) simp

lemma hex_nibbles:
  "unat (drop_bit 4 (v :: byte)) < 16" "unat (v AND 0x0f) < 16"
proof -
  have "unat v < 256" using unsigned_less[of v, where 'a=nat] by simp
  moreover have "unat (drop_bit 4 v) = unat v div 2 ^ 4"
    by (subst unat_drop_bit_eq) (rule drop_bit_eq_div)
  ultimately show "unat (drop_bit 4 v) < 16" by simp
  have "v AND 0x0f \<le> 0x0f" by (rule word_and_le1)
  then show "unat (v AND 0x0f) < 16" by (simp add: word_le_nat_alt)
qed

lemma hex_EncodeToString_lower:
  "set (hex_EncodeToString src) \<subseteq> set ''0123456789abcdef''
   \<and> length (hex_EncodeToString src) = 2 * length src"
  by (induction src) (use hex_digit_lower hex_nibbles in auto)

lemma verifyMidtransSignature_eq:
  "verifyMidtransSignature e config webhook =
     hmac_Equal
       (bytes (hex_EncodeToString (sha512_Sum e (bytes (OrderID webhook @ StatusCode webhook
           @ GrossAmount webhook @ Midtrans_ServerKey config)))))
       (bytes (SignatureKey webhook))"
  by (simp add: verifyMidtransSignature_def Let_def)

text \<open>
  C7: the Midtrans signature check accepts a payload exactly when its
  \<open>signature_key\<close> equals the hexadecimal encoding of the SHA-512 digest of
  \<open>order_id + status_code + gross_amount + serverKey\<close>, an encoding in the lowercase
  digits \<open>0123456789abcdef\<close>, two for each byte of the digest. The comparison the check
  makes is constant-time: the number of byte operations it executes is fixed by the lengths
  of the two signatures alone (one for each position when the lengths agree, none when they
  differ), so two payloads with signatures of the same length take the same number of
  operations, whichever of their bytes are right.
\<close>

theorem verifyMidtransSignature_iff:
  "(fst (verifyMidtransSignature e config webhook) \<longleftrightarrow>
      SignatureKey webhook =
        hex_EncodeToString (sha512_Sum e (bytes (OrderID webhook @ StatusCode webhook
           @ GrossAmount webhook @ Midtrans_ServerKey config))))
   \<and> snd (verifyMidtransSignature e config webhook) =
         (if length (SignatureKey webhook) =
               2 * length (sha512_Sum e (bytes (OrderID webhook @ StatusCode webhook
                     @ GrossAmount webhook @ Midtrans_ServerKey config)))
          then length (SignatureKey webhook) else 0)
   \<and> set (hex_EncodeToString (sha512_Sum e (bytes (OrderID webhook @ StatusCode webhook
           @ GrossAmount webhook @ Midtrans_ServerKey config)))) \<subseteq> set ''0123456789abcdef''
   \<and> length (hex_EncodeToString (sha512_Sum e (bytes (OrderID webhook @ StatusCode webhook
           @ GrossAmount webhook @ Midtrans_ServerKey config)))) =
         2 * length (sha512_Sum e (bytes (OrderID webhook @ StatusCode webhook
               @ GrossAmount webhook @ Midtrans_ServerKey config)))"
proof -
  let ?digest = "sha512_Sum e (bytes (OrderID webhook @ StatusCode webhook
           @ GrossAmount webhook @ Midtrans_ServerKey config))"
  note hex = hex_EncodeToString_lower [of ?digest]
  have "fst (verifyMidtransSignature e config webhook) \<longleftrightarrow>
      SignatureKey webhook = hex_EncodeToString ?digest"
    by (auto simp: verifyMidtransSignature_eq hmac_Equal_iff bytes_inj)
  moreover have "snd (verifyMidtransSignature e config webhook) =
         (if length (SignatureKey webhook) = 2 * length ?digest
          then length (SignatureKey webhook) else 0)"
    using hex by (auto simp: verifyMidtransSignature_eq hmac_Equal_iterations bytes_def)
  ultimately show ?thesis using hex by simp
qed

theorem verifyMidtransSignature_iff_witness:
  "hex_EncodeToString (sha512_Sum env0 (bytes (OrderID (webhook0 ''AB01'')
       @ StatusCode (webhook0 ''AB01'') @ GrossAmount (webhook0 ''AB01'')
       @ Midtrans_ServerKey config0))) = ''ab01''
   \<and> fst (verifyMidtransSignature env0 config0 (webhook0 ''ab01''))
   \<and> snd (verifyMidtransSignature env0 config0 (webhook0 ''ab01'')) = 4
   \<and> \<not> fst (verifyMidtransSignature env0 config0 (webhook0 ''AB01''))
   \<and> snd (verifyMidtransSignature env0 config0 (webhook0 ''AB01'')) = 4
   \<and> \<not> fst (verifyMidtransSignature env0 config0 (webhook0 ''0b01''))
   \<and> snd (verifyMidtransSignature env0 config0 (webhook0 ''0b01'')) = 4
   \<and> \<not> fst (verifyMidtransSignature env0 config0 (webhook0 ''ab0''))
   \<and> snd (verifyMidtransSignature env0 config0 (webhook0 ''ab0'')) = 0"
proof -
  have sig: "hex_EncodeToString (sha512_Sum env0 (bytes (OrderID (webhook0 given)
       @ StatusCode (webhook0 given) @ GrossAmount (webhook0 given)
       @ Midtrans_ServerKey config0))) = ''ab01''" for given
    by (simp add: env0_def hextable_def drop_bit_eq_div)
  have key: "SignatureKey (webhook0 given) = given" for given
    by (simp add: webhook0_def)
  have len: "2 * length (sha512_Sum env0 (bytes (OrderID (webhook0 given)
       @ StatusCode (webhook0 given) @ GrossAmount (webhook0 given)
       @ Midtrans_ServerKey config0))) = 4" for given
    by (simp add: env0_def)
  show ?thesis
    using verifyMidtransSignature_iff [of env0 config0 "webhook0 ''ab01''"]
          verifyMidtransSignature_iff [of env0 config0 "webhook0 ''AB01''"]
          verifyMidtransSignature_iff [of env0 config0 "webhook0 ''0b01''"]
          verifyMidtransSignature_iff [of env0 config0 "webhook0 ''ab0''"]
    unfolding sig key len by simp
qed

section \<open>Properties of the connection hub\<close>

lemma wf_hub_map_of:
  "wf_hub h \<Longrightarrow> map_of (clients h) ch = Some ms \<Longrightarrow>
   distinct ms \<and> ms \<noteq> [] \<and>
   (\<forall>c \<in> set ms. cl_channel (heap h c) = ch \<and> \<not> send_closed (heap h c)
        \<and> length (send (heap h c)) \<le> sendBufferSize)"
  unfolding wf_hub_def by (auto dest!: map_of_SomeD)

lemma wf_hub_alt:
  "wf_hub h \<longleftrightarrow>
     distinct (map fst (clients h)) \<and>
     (\<forall>ch ms. map_of (clients h) ch = Some ms \<longrightarrow>
        distinct ms \<and> ms \<noteq> [] \<and>
        (\<forall>c \<in> set ms. cl_channel (heap h c) = ch \<and> \<not> send_closed (heap h c)
           \<and> length (send (heap h c)) \<le> sendBufferSize))"
  unfolding wf_hub_def
  by (auto dest!: map_of_SomeD) (metis (mono_tags, lifting) map_of_is_SomeI case_prodD)+

lemma broadcast_loop_all_room:
  "distinct cs \<Longrightarrow>
   \<forall>d \<in> set cs. \<not> send_closed (heap h d) \<and> length (send (heap h d)) < sendBufferSize \<Longrightarrow>
   broadcast_loop h m cs =
     Done (h\<lparr>heap := \<lambda>a. if a \<in> set cs then (heap h a)\<lparr>send := send (heap h a) @ [m]\<rparr>
                          else heap h a\<rparr>)"
proof (induction cs arbitrary: h)
  case Nil
  then show ?case by simp
next
  case (Cons x cs)
  let ?h1 = "h\<lparr>heap := (heap h)(x := (heap h x)\<lparr>send := send (heap h x) @ [m]\<rparr>)\<rparr>"
  have "broadcast_loop ?h1 m cs =
     Done (?h1\<lparr>heap := \<lambda>a. if a \<in> set cs then (heap ?h1 a)\<lparr>send := send (heap ?h1 a) @ [m]\<rparr>
                          else heap ?h1 a\<rparr>)"
    using Cons.prems by (intro Cons.IH) auto
  moreover have "(\<lambda>a. if a \<in> set cs then (heap ?h1 a)\<lparr>send := send (heap ?h1 a) @ [m]\<rparr>
                          else heap ?h1 a)
     = (\<lambda>a. if a \<in> set (x # cs) then (heap h a)\<lparr>send := send (heap h a) @ [m]\<rparr>
                          else heap h a)"
    using Cons.prems by (auto simp: fun_eq_iff)
  ultimately show ?case using Cons.prems by (simp add: Let_def)
qed

lemma broadcast_loop_one_full:
  "distinct cs \<Longrightarrow> c \<in> set cs \<Longrightarrow>
   \<forall>d \<in> set cs. \<not> send_closed (heap h d) \<Longrightarrow>
   length (send (heap h c)) = sendBufferSize \<Longrightarrow>
   \<forall>d \<in> set cs. d \<noteq> c \<longrightarrow> length (send (heap h d)) < sendBufferSize \<Longrightarrow>
   length (unregister h) < hub_chan_cap \<Longrightarrow>
   broadcast_loop h m cs =
     Done (h\<lparr>heap := \<lambda>a. if a \<in> set cs \<and> a \<noteq> c
                          then (heap h a)\<lparr>send := send (heap h a) @ [m]\<rparr> else heap h a,
             unregister := unregister h @ [c]\<rparr>)"
proof (induction cs arbitrary: h)
  case Nil
  then show ?case by simp
next
  case (Cons x cs)
  show ?case
  proof (cases "x = c")
    case True
    let ?h1 = "h\<lparr>unregister := unregister h @ [c]\<rparr>"
    have "broadcast_loop ?h1 m cs =
       Done (?h1\<lparr>heap := \<lambda>a. if a \<in> set cs then (heap ?h1 a)\<lparr>send := send (heap ?h1 a) @ [m]\<rparr>
                          else heap ?h1 a\<rparr>)"
      using Cons.prems True by (intro broadcast_loop_all_room) auto
    moreover have "(\<lambda>a. if a \<in> set cs then (heap ?h1 a)\<lparr>send := send (heap ?h1 a) @ [m]\<rparr>
                          else heap ?h1 a)
      = (\<lambda>a. if a \<in> set (x # cs) \<and> a \<noteq> c
                          then (heap h a)\<lparr>send := send (heap h a) @ [m]\<rparr> else heap h a)"
      using Cons.prems True by (auto simp: fun_eq_iff)
    ultimately show ?thesis using Cons.prems True by (simp add: Let_def)
  next
    case False
    let ?h1 = "h\<lparr>heap := (heap h)(x := (heap h x)\<lparr>send := send (heap h x) @ [m]\<rparr>)\<rparr>"
    have "broadcast_loop ?h1 m cs =
     Done (?h1\<lparr>heap := \<lambda>a. if a \<in> set cs \<and> a \<noteq> c
                          then (heap ?h1 a)\<lparr>send := send (heap ?h1 a) @ [m]\<rparr> else heap ?h1 a,
             unregister := unregister ?h1 @ [c]\<rparr>)"
      using Cons.prems False by (intro Cons.IH) auto
    moreover have "(\<lambda>a. if a \<in> set cs \<and> a \<noteq> c
                          then (heap ?h1 a)\<lparr>send := send (heap ?h1 a) @ [m]\<rparr> else heap ?h1 a)
      = (\<lambda>a. if a \<in> set (x # cs) \<and> a \<noteq> c
                          then (heap h a)\<lparr>send := send (heap h a) @ [m]\<rparr> else heap h a)"
      using Cons.prems False by (auto simp: fun_eq_iff)
    ultimately show ?thesis using Cons.prems False by (simp add: Let_def)
  qed
qed

lemma delete_update_same: "AList.delete k (AList.update k v al) = AList.delete k al"
  by (induction al) auto

lemma unregisterClient_absent:
  "\<not> registered h c \<Longrightarrow> unregisterClient h c = Done h"
  by (auto simp: registered_def unregisterClient_def Let_def split: option.splits)

lemma unregisterClient_present:
  assumes "wf_hub h" "map_of (clients h) (cl_channel (heap h c)) = Some ms" "c \<in> set ms"
  defines "h1 \<equiv> h\<lparr>clients := (if removeAll c ms = []
                                then AList.delete (cl_channel (heap h c)) (clients h)
                                else AList.update (cl_channel (heap h c)) (removeAll c ms) (clients h)),
                    heap := (heap h)(c := (heap h c)\<lparr>send_closed := True\<rparr>)\<rparr>"
  shows "unregisterClient h c = Done h1" "\<not> registered h1 c" "wf_hub h1"
proof -
  let ?ch = "cl_channel (heap h c)"
  have open_c: "\<not> send_closed (heap h c)"
    using assms(1-3) by (auto simp: wf_hub_alt)
  show "unregisterClient h c = Done h1"
    using assms(2,3) open_c
    by (simp add: unregisterClient_def Let_def h1_def delete_update_same)
  show "\<not> registered h1 c"
    by (auto simp: registered_def h1_def update_conv' delete_conv' split: option.splits)
  have wf: "distinct (map fst (clients h))"
    "\<And>ch' ms'. map_of (clients h) ch' = Some ms' \<Longrightarrow>
        distinct ms' \<and> ms' \<noteq> [] \<and>
        (\<forall>d \<in> set ms'. cl_channel (heap h d) = ch' \<and> \<not> send_closed (heap h d)
           \<and> length (send (heap h d)) \<le> sendBufferSize)"
    using assms(1) by (auto simp: wf_hub_alt)
  have other: "d \<noteq> c" if "map_of (clients h) ch' = Some ms'" "ch' \<noteq> ?ch" "d \<in> set ms'" for ch' ms' d
    using wf(2)[OF that(1)] that(2,3) by auto
  show "wf_hub h1"
    unfolding wf_hub_alt
  proof (rule conjI)
    show "distinct (map fst (clients h1))"
      using wf(1) by (simp add: h1_def distinct_update distinct_delete)
  next
    show "\<forall>ch' ms'. map_of (clients h1) ch' = Some ms' \<longrightarrow> distinct ms' \<and> ms' \<noteq> [] \<and>
        (\<forall>d \<in> set ms'. cl_channel (heap h1 d) = ch' \<and> \<not> send_closed (heap h1 d)
           \<and> length (send (heap h1 d)) \<le> sendBufferSize)"
    proof (intro allI impI)
    fix ch' ms'
    assume m: "map_of (clients h1) ch' = Some ms'"
    show "distinct ms' \<and> ms' \<noteq> [] \<and>
        (\<forall>d \<in> set ms'. cl_channel (heap h1 d) = ch' \<and> \<not> send_closed (heap h1 d)
           \<and> length (send (heap h1 d)) \<le> sendBufferSize)"
    proof (cases "ch' = ?ch")
      case True
      with m have ms': "ms' = removeAll c ms" "removeAll c ms \<noteq> []"
        by (auto simp: h1_def update_conv' delete_conv' split: if_splits)
      show ?thesis
        using wf(2)[OF assms(2)] ms' by (auto simp: h1_def True distinct_removeAll)
    next
      case False
      with m have old: "map_of (clients h) ch' = Some ms'"
        by (auto simp: h1_def update_conv' delete_conv' split: if_splits)
      show ?thesis
        using wf(2)[OF old] other[OF old False] by (auto simp: h1_def)
    qed
    qed
  qed
qed

lemma broadcast_loop_frame:
  "reached (broadcast_loop h m cs) = Some h' \<Longrightarrow> a \<notin> set cs \<Longrightarrow> heap h' a = heap h a"
  by (induction cs arbitrary: h) (auto simp: Let_def split: if_splits)

lemma BroadcastDonation_loop_overlay:
  "\<exists>new. reached (BroadcastDonation_loop h data chans) = Some (h\<lparr>broadcast := broadcast h @ new\<rparr>)
     \<and> (\<forall>m \<in> set new. Channel m \<in> set chans \<and> take 8 (Channel m) = ''overlay:'')"
proof (induction chans arbitrary: h)
  case Nil
  show ?case by (rule exI[of _ "[]"]) simp
next
  case (Cons ch chans)
  show ?case
  proof (cases "length ch > 8 \<and> take 8 ch = ''overlay:''")
    case False
    from Cons.IH[of h] obtain new where
      "reached (BroadcastDonation_loop h data chans) = Some (h\<lparr>broadcast := broadcast h @ new\<rparr>)"
      "\<forall>m \<in> set new. Channel m \<in> set chans \<and> take 8 (Channel m) = ''overlay:''" by blast
    then show ?thesis using False by (intro exI[of _ new]) auto
  next
    case True
    show ?thesis
    proof (cases "length (broadcast h) < hub_chan_cap")
      case False
      then show ?thesis using True by (intro exI[of _ "[]"]) simp
    next
      case room: True
      let ?x = "\<lparr>Channel = ch, Message = data\<rparr>"
      let ?h1 = "h\<lparr>broadcast := broadcast h @ [?x]\<rparr>"
      from Cons.IH[of ?h1] obtain new where
        "reached (BroadcastDonation_loop ?h1 data chans) = Some (?h1\<lparr>broadcast := broadcast ?h1 @ new\<rparr>)"
        "\<forall>m \<in> set new. Channel m \<in> set chans \<and> take 8 (Channel m) = ''overlay:''" by blast
      then show ?thesis using True room by (intro exI[of _ "?x # new"]) auto
    qed
  qed
qed

lemma overlay_not_admin: "take 8 ch = ''overlay:'' \<Longrightarrow> ch \<noteq> ''admin:'' @ uid"
  by (cases ch) auto

text \<open>
  C8: for every hub state and donation event, whether the fan-out returns or stops at a
  full \<open>broadcast\<close> channel, it has only appended broadcast requests to that channel
  and changed nothing else; each request names a registered channel whose name starts with
  \<open>overlay:\<close>, hence none of the form \<open>admin:<userId>\<close>; and when the hub later
  carries out such a request, in any state it can be in, the only connections whose queue
  it touches are connections of the channel the request names.
\<close>

theorem BroadcastDonation_overlay_only:
  "\<exists>new. reached (BroadcastDonation json_Marshal timestamp h event)
            = Some (h\<lparr>broadcast := broadcast h @ new\<rparr>)
     \<and> (\<forall>m \<in> set new. take 8 (Channel m) = ''overlay:''
            \<and> Channel m \<in> fst ` set (clients h)
            \<and> (\<forall>uid. Channel m \<noteq> ''admin:'' @ uid)
            \<and> (\<forall>h2 h3 a. wf_hub h2 \<and> reached (broadcastToChannel h2 m) = Some h3
                   \<and> heap h3 a \<noteq> heap h2 a \<longrightarrow> cl_channel (heap h2 a) = Channel m))"
proof -
  have frame: "cl_channel (heap h2 a) = Channel m"
    if "wf_hub h2" "reached (broadcastToChannel h2 m) = Some h3" "heap h3 a \<noteq> heap h2 a"
    for h2 h3 a and m :: BroadcastMessage
  proof (cases "map_of (clients h2) (Channel m)")
    case None
    with that show ?thesis by (simp add: broadcastToChannel_def)
  next
    case (Some ms)
    with that(2) have "reached (broadcast_loop h2 (Message m) ms) = Some h3"
      by (simp add: broadcastToChannel_def)
    with that(3) have "a \<in> set ms" using broadcast_loop_frame by blast
    then show ?thesis using wf_hub_map_of[OF that(1) Some] by simp
  qed
  show ?thesis
  proof (cases "json_Marshal (donation_message timestamp event)")
    case (Inl err)
    then show ?thesis by (intro exI[of _ "[]"]) (simp add: BroadcastDonation_def)
  next
    case (Inr data)
    from BroadcastDonation_loop_overlay[of h data "map fst (clients h)"] obtain new where
      "reached (BroadcastDonation_loop h data (map fst (clients h))) = Some (h\<lparr>broadcast := broadcast h @ new\<rparr>)"
      "\<forall>m \<in> set new. Channel m \<in> set (map fst (clients h)) \<and> take 8 (Channel m) = ''overlay:''"
      by blast
    then show ?thesis using Inr frame overlay_not_admin
      by (intro exI[of _ new]) (auto simp: BroadcastDonation_def)
  qed
qed

lemma wf_hub3: "wf_hub hub3"
  by (simp add: wf_hub_def hub3_def a_client_def sendBufferSize_def)

lemma wf_hub3_busy: "wf_hub hub3_busy"
  by (simp add: wf_hub_def hub3_busy_def hub3_def a_client_def sendBufferSize_def)

lemma wf_hub_mixed: "wf_hub hub_mixed"
  by (simp add: wf_hub_def hub_mixed_def a_client_def sendBufferSize_def)

lemma broadcast_loop_blocks:
  "distinct (pre @ c # post) \<Longrightarrow>
   \<forall>d \<in> set pre. \<not> send_closed (heap h d) \<and> length (send (heap h d)) < sendBufferSize \<Longrightarrow>
   \<not> send_closed (heap h c) \<Longrightarrow> length (send (heap h c)) = sendBufferSize \<Longrightarrow>
   length (unregister h) = hub_chan_cap \<Longrightarrow>
   broadcast_loop h m (pre @ c # post) =
     Blocked (h\<lparr>heap := \<lambda>a. if a \<in> set pre then (heap h a)\<lparr>send := send (heap h a) @ [m]\<rparr>
                             else heap h a\<rparr>)"
proof (induction pre arbitrary: h)
  case Nil
  then show ?case by (simp add: Let_def)
next
  case (Cons x pre)
  let ?h1 = "h\<lparr>heap := (heap h)(x := (heap h x)\<lparr>send := send (heap h x) @ [m]\<rparr>)\<rparr>"
  have "broadcast_loop ?h1 m (pre @ c # post) =
     Blocked (?h1\<lparr>heap := \<lambda>a. if a \<in> set pre then (heap ?h1 a)\<lparr>send := send (heap ?h1 a) @ [m]\<rparr>
                             else heap ?h1 a\<rparr>)"
    using Cons.prems by (intro Cons.IH) auto
  moreover have "(\<lambda>a. if a \<in> set pre then (heap ?h1 a)\<lparr>send := send (heap ?h1 a) @ [m]\<rparr>
                          else heap ?h1 a)
     = (\<lambda>a. if a \<in> set (x # pre) then (heap h a)\<lparr>send := send (heap h a) @ [m]\<rparr>
                          else heap h a)"
    using Cons.prems by (auto simp: fun_eq_iff)
  ultimately show ?case using Cons.prems by (simp add: Let_def)
qed

text \<open>
  C6: a broadcast to a channel of N members, exactly one of them with a full queue, should
  deliver the message to the other N - 1 members, issue unregister for the full member and
  leave the others as they were, in every state of the hub. It does not when the
  \<open>unregister\<close> channel of the hub is full. \<open>broadcastToChannel\<close> issues the
  unregister by a plain send on that channel, from inside \<open>Run\<close>, the only receiver
  of the channel. So in a state the hub can be in where the channel has the members
  \<open>pre\<close>, then \<open>c\<close>, then \<open>post\<close> in the order of the iteration, only
  \<open>c\<close> has a full queue and 256 requests are waiting in \<open>unregister\<close>, the
  broadcast delivers to the members \<open>pre\<close> and then stops at that send for ever: the
  members \<open>post\<close> get nothing although their queues have room, no unregister request
  for \<open>c\<close> is queued, and the hub serves no further request.
\<close>

theorem broadcastToChannel_blocks:
  assumes "wf_hub h" and "map_of (clients h) ch = Some (pre @ c # post)"
    and "length (send (heap h c)) = sendBufferSize"
    and "\<forall>d \<in> set (pre @ post). length (send (heap h d)) < sendBufferSize"
    and "length (unregister h) = hub_chan_cap"
  shows "broadcastToChannel h \<lparr>Channel = ch, Message = m\<rparr> =
     Blocked (h\<lparr>heap := \<lambda>a. if a \<in> set pre then (heap h a)\<lparr>send := send (heap h a) @ [m]\<rparr>
                             else heap h a\<rparr>)"
proof -
  note wf = wf_hub_map_of [OF assms(1,2)]
  have "broadcast_loop h m (pre @ c # post) =
     Blocked (h\<lparr>heap := \<lambda>a. if a \<in> set pre then (heap h a)\<lparr>send := send (heap h a) @ [m]\<rparr>
                             else heap h a\<rparr>)"
    using wf assms(3-5) by (intro broadcast_loop_blocks) auto
  then show ?thesis using assms(2) by (simp add: broadcastToChannel_def)
qed

text \<open>
  The state \<open>hub3_busy\<close>: \<open>overlay:T1\<close> has the three members 1, 2 and 3, the
  queue of member 2 is full and 256 requests are waiting in \<open>unregister\<close>. The
  broadcast delivers to member 1 and stops; member 3, whose queue is empty, gets nothing,
  and the requests waiting in \<open>unregister\<close> are the 256 there were.
\<close>

theorem broadcastToChannel_blocks_witness:
  "wf_hub hub3_busy
   \<and> map_of (clients hub3_busy) ''overlay:T1'' = Some [1, 2, 3]
   \<and> length (send (heap hub3_busy 1)) < sendBufferSize
   \<and> length (send (heap hub3_busy 2)) = sendBufferSize
   \<and> length (send (heap hub3_busy 3)) < sendBufferSize
   \<and> length (unregister hub3_busy) = hub_chan_cap
   \<and> broadcastToChannel hub3_busy \<lparr>Channel = ''overlay:T1'', Message = ''donation''\<rparr>
       = Blocked (hub3_busy\<lparr>heap := (heap hub3_busy)(1 := a_client ''overlay:T1'' [''donation''])\<rparr>)
   \<and> send (heap hub3_busy 3) = []
   \<and> unregister (hub3_busy\<lparr>heap := (heap hub3_busy)(1 := a_client ''overlay:T1'' [''donation''])\<rparr>)
       = replicate 256 7"
proof -
  have pre: "map_of (clients hub3_busy) ''overlay:T1'' = Some ([1] @ 2 # [3])"
    "length (send (heap hub3_busy 2)) = sendBufferSize"
    "\<forall>d \<in> set ([1] @ [3]). length (send (heap hub3_busy d)) < sendBufferSize"
    "length (unregister hub3_busy) = hub_chan_cap"
    by (simp_all add: hub3_busy_def hub3_def a_client_def sendBufferSize_def hub_chan_cap_def)
  have st: "(\<lambda>a. if a \<in> set [1] then (heap hub3_busy a)\<lparr>send := send (heap hub3_busy a) @ [''donation'']\<rparr>
                 else heap hub3_busy a)
      = (heap hub3_busy)(1 := a_client ''overlay:T1'' [''donation''])"
    by (auto simp: fun_eq_iff hub3_busy_def hub3_def a_client_def)
  have rest: "send (heap hub3_busy 3) = []" "unregister hub3_busy = replicate 256 7"
    by (simp_all add: hub3_busy_def hub3_def a_client_def)
  from broadcastToChannel_blocks [OF wf_hub3_busy pre, of "''donation''"]
  have "broadcastToChannel hub3_busy \<lparr>Channel = ''overlay:T1'', Message = ''donation''\<rparr>
       = Blocked (hub3_busy\<lparr>heap := (heap hub3_busy)(1 := a_client ''overlay:T1'' [''donation''])\<rparr>)"
    unfolding st .
  with wf_hub3_busy pre rest show ?thesis by simp
qed

text \<open>
  In a state the hub can be in whose \<open>unregister\<close> channel has room for one more
  request, where a channel has the members \<open>ms\<close> (N of them) and exactly one member
  \<open>c\<close> has a full outbound queue, broadcasting one message to that channel returns;
  it has appended the message to the queue of each of the other N - 1 members and to no
  other queue, has queued one unregister request for \<open>c\<close>, and has left the registry,
  the queue of \<open>c\<close>, every connection outside the channel and the pending broadcasts
  as they were.
\<close>

lemma broadcastToChannel_one_full:
  assumes "wf_hub h" and "map_of (clients h) ch = Some ms" and "c \<in> set ms"
    and "length (send (heap h c)) = sendBufferSize"
    and "\<forall>d \<in> set ms. d \<noteq> c \<longrightarrow> length (send (heap h d)) < sendBufferSize"
    and "length (unregister h) < hub_chan_cap"
  shows "\<exists>h'. broadcastToChannel h \<lparr>Channel = ch, Message = m\<rparr> = Done h'
     \<and> (\<forall>d \<in> set ms. d \<noteq> c \<longrightarrow> heap h' d = (heap h d)\<lparr>send := send (heap h d) @ [m]\<rparr>)
     \<and> length (filter (\<lambda>d. send (heap h' d) = send (heap h d) @ [m]) ms) = length ms - 1
     \<and> unregister h' = unregister h @ [c]
     \<and> heap h' c = heap h c
     \<and> (\<forall>a. a \<notin> set ms \<longrightarrow> heap h' a = heap h a)
     \<and> clients h' = clients h
     \<and> broadcast h' = broadcast h
     \<and> wf_hub h'"
proof -
  let ?h' = "h\<lparr>heap := \<lambda>a. if a \<in> set ms \<and> a \<noteq> c
                          then (heap h a)\<lparr>send := send (heap h a) @ [m]\<rparr> else heap h a,
               unregister := unregister h @ [c]\<rparr>"
  note wf = wf_hub_map_of[OF assms(1,2)]
  have run: "broadcastToChannel h \<lparr>Channel = ch, Message = m\<rparr> = Done ?h'"
    using broadcast_loop_one_full[of ms c h m] wf assms
    by (simp add: broadcastToChannel_def)
  have "filter (\<lambda>d. send (heap ?h' d) = send (heap h d) @ [m]) ms = removeAll c ms"
    unfolding removeAll_filter_not_eq by (rule filter_cong) auto
  moreover have "length (removeAll c ms) = length ms - 1"
    using wf assms(3) by (simp add: distinct_remove1_removeAll[symmetric] length_remove1)
  ultimately have count:
    "length (filter (\<lambda>d. send (heap ?h' d) = send (heap h d) @ [m]) ms) = length ms - 1"
    by simp
  have wf': "wf_hub ?h'"
    unfolding wf_hub_alt
  proof (rule conjI)
    show "distinct (map fst (clients ?h'))"
      using assms(1) by (simp add: wf_hub_alt)
  next
    show "\<forall>ch' ms'. map_of (clients ?h') ch' = Some ms' \<longrightarrow> distinct ms' \<and> ms' \<noteq> [] \<and>
        (\<forall>d \<in> set ms'. cl_channel (heap ?h' d) = ch' \<and> \<not> send_closed (heap ?h' d)
           \<and> length (send (heap ?h' d)) \<le> sendBufferSize)"
    proof (intro allI impI)
      fix ch' ms'
      assume "map_of (clients ?h') ch' = Some ms'"
      then have old: "map_of (clients h) ch' = Some ms'" by simp
      show "distinct ms' \<and> ms' \<noteq> [] \<and>
        (\<forall>d \<in> set ms'. cl_channel (heap ?h' d) = ch' \<and> \<not> send_closed (heap ?h' d)
           \<and> length (send (heap ?h' d)) \<le> sendBufferSize)"
        using wf_hub_map_of[OF assms(1) old] assms(5) by (auto simp: Suc_le_eq)
    qed
  qed
  show ?thesis
    using run count wf' by (intro exI[of _ ?h']) simp
qed

lemma broadcastToChannel_one_full_witness:
  "wf_hub hub3
   \<and> map_of (clients hub3) ''overlay:T1'' = Some [1, 2, 3]
   \<and> length (send (heap hub3 2)) = sendBufferSize
   \<and> length (unregister hub3) < hub_chan_cap
   \<and> (\<exists>h'. broadcastToChannel hub3 \<lparr>Channel = ''overlay:T1'', Message = ''donation''\<rparr> = Done h'
         \<and> send (heap h' 1) = [''donation''] \<and> send (heap h' 3) = [''donation'']
         \<and> send (heap h' 2) = replicate 256 ''old''
         \<and> unregister h' = [2] \<and> clients h' = [(''overlay:T1'', [1, 2, 3])])"
proof -
  have pre: "map_of (clients hub3) ''overlay:T1'' = Some [1, 2, 3]" "2 \<in> set [1, 2, 3 :: nat]"
    "length (send (heap hub3 2)) = sendBufferSize"
    "\<forall>d \<in> set [1, 2, 3]. d \<noteq> 2 \<longrightarrow> length (send (heap hub3 d)) < sendBufferSize"
    "length (unregister hub3) < hub_chan_cap"
    by (simp_all add: hub3_def a_client_def sendBufferSize_def hub_chan_cap_def)
  from broadcastToChannel_one_full[OF wf_hub3 pre, of "''donation''"]
  obtain h' where h': "broadcastToChannel hub3 \<lparr>Channel = ''overlay:T1'', Message = ''donation''\<rparr> = Done h'"
    "\<forall>d \<in> set [1, 2, 3]. d \<noteq> 2 \<longrightarrow> heap h' d = (heap hub3 d)\<lparr>send := send (heap hub3 d) @ [''donation'']\<rparr>"
    "unregister h' = unregister hub3 @ [2]" "heap h' 2 = heap hub3 2" "clients h' = clients hub3"
    by blast
  have "send (heap h' 1) = [''donation'']" "send (heap h' 3) = [''donation'']"
    "send (heap h' 2) = replicate 256 ''old''" "unregister h' = [2]"
    "clients h' = [(''overlay:T1'', [1, 2, 3])]"
    using h'(2-5) by (simp_all add: hub3_def a_client_def)
  with h'(1) wf_hub3 pre show ?thesis by blast
qed

text \<open>
  C9: in every state the hub can be in (\<open>wf_hub\<close>) and for every connection,
  \<open>unregister\<close> returns without a
  panic, and a second \<open>unregister\<close> of the same connection returns the state the first
  one produced, unchanged: the queue, closed by the first call when the connection was
  registered (it was open then), is not closed again. A connection that was not registered
  leaves the state as it is. For a registered one, the entry of its channel is deleted
  exactly when it was the only member, otherwise the entry keeps the other members, and
  the entries of the other channels stay as they were.
\<close>

theorem unregisterClient_idempotent:
  assumes "wf_hub h"
  shows "\<exists>h1. unregisterClient h c = Done h1
     \<and> unregisterClient h1 c = Done h1
     \<and> wf_hub h1
     \<and> \<not> registered h1 c
     \<and> (\<not> registered h c \<longrightarrow> h1 = h)
     \<and> (\<forall>ms. map_of (clients h) (cl_channel (heap h c)) = Some ms \<and> c \<in> set ms \<longrightarrow>
           \<not> send_closed (heap h c)
           \<and> heap h1 = (heap h)(c := (heap h c)\<lparr>send_closed := True\<rparr>)
           \<and> (map_of (clients h1) (cl_channel (heap h c)) = None \<longleftrightarrow> set ms = {c})
           \<and> (set ms \<noteq> {c} \<longrightarrow>
                map_of (clients h1) (cl_channel (heap h c)) = Some (removeAll c ms))
           \<and> (\<forall>ch'. ch' \<noteq> cl_channel (heap h c) \<longrightarrow>
                map_of (clients h1) ch' = map_of (clients h) ch'))"
proof (cases "registered h c")
  case False
  then have "unregisterClient h c = Done h" by (rule unregisterClient_absent)
  moreover have "\<forall>ms. \<not> (map_of (clients h) (cl_channel (heap h c)) = Some ms \<and> c \<in> set ms)"
    using False by (auto simp: registered_def)
  ultimately show ?thesis using False assms by (intro exI[of _ h]) auto
next
  case True
  then obtain ms where ms: "map_of (clients h) (cl_channel (heap h c)) = Some ms" "c \<in> set ms"
    by (auto simp: registered_def split: option.splits)
  let ?ch = "cl_channel (heap h c)"
  let ?h1 = "h\<lparr>clients := (if removeAll c ms = [] then AList.delete ?ch (clients h)
                              else AList.update ?ch (removeAll c ms) (clients h)),
               heap := (heap h)(c := (heap h c)\<lparr>send_closed := True\<rparr>)\<rparr>"
  note first = unregisterClient_present[OF assms ms]
  have second: "unregisterClient ?h1 c = Done ?h1"
    using first(2) by (rule unregisterClient_absent)
  have empty_iff: "removeAll c ms = [] \<longleftrightarrow> set ms = {c}"
    using ms(2) by (auto simp: removeAll_filter_not_eq filter_empty_conv)
  have open_c: "\<not> send_closed (heap h c)"
    using wf_hub_map_of[OF assms ms(1)] ms(2) by simp
  have regs: "(map_of (clients ?h1) ?ch = None \<longleftrightarrow> set ms = {c})"
    "set ms \<noteq> {c} \<longrightarrow> map_of (clients ?h1) ?ch = Some (removeAll c ms)"
    "\<forall>ch'. ch' \<noteq> ?ch \<longrightarrow> map_of (clients ?h1) ch' = map_of (clients h) ch'"
    using empty_iff by (auto simp: update_conv' delete_conv')
  show ?thesis
    using first second open_c regs True ms(1) by (intro exI[of _ ?h1]) simp
qed

theorem unregisterClient_idempotent_witness:
  "wf_hub hub3 \<and> wf_hub hub_mixed
   \<and> (\<exists>h1. unregisterClient hub3 2 = Done h1 \<and> unregisterClient h1 2 = Done h1
          \<and> clients h1 = [(''overlay:T1'', [1, 3])] \<and> send_closed (heap h1 2))
   \<and> (\<exists>h1. unregisterClient hub_mixed 2 = Done h1 \<and> unregisterClient h1 2 = Done h1
          \<and> clients h1 = [(''overlay:T1'', [1])] \<and> send_closed (heap h1 2))"
proof -
  have e1: "unregisterClient hub3 2 = Done (hub3\<lparr>clients := [(''overlay:T1'', [1, 3])],
              heap := (heap hub3)(2 := (heap hub3 2)\<lparr>send_closed := True\<rparr>)\<rparr>)"
    by (simp add: unregisterClient_def hub3_def a_client_def Let_def)
  have e2: "unregisterClient hub_mixed 2 = Done (hub_mixed\<lparr>clients := [(''overlay:T1'', [1])],
              heap := (heap hub_mixed)(2 := (heap hub_mixed 2)\<lparr>send_closed := True\<rparr>)\<rparr>)"
    by (simp add: unregisterClient_def hub_mixed_def a_client_def Let_def AList.delete_eq)
  from unregisterClient_idempotent[OF wf_hub3, of 2] e1
  have "\<exists>h1. unregisterClient hub3 2 = Done h1 \<and> unregisterClient h1 2 = Done h1
          \<and> clients h1 = [(''overlay:T1'', [1, 3])] \<and> send_closed (heap h1 2)"
    by auto
  moreover from unregisterClient_idempotent[OF wf_hub_mixed, of 2] e2
  have "\<exists>h1. unregisterClient hub_mixed 2 = Done h1 \<and> unregisterClient h1 2 = Done h1
          \<and> clients h1 = [(''overlay:T1'', [1])] \<and> send_closed (heap h1 2)"
    by auto
  ultimately show ?thesis using wf_hub3 wf_hub_mixed by blast
qed

theorem BroadcastDonation_overlay_only_witness:
  "reached (BroadcastDonation (\<lambda>m. Inr (msg_Type m)) ''2026-01-01T00:00:00Z'' hub_mixed
      (NewDonationEvent ''d1'' ''Ann'' ''hi'' 50000 ''2026-01-01T00:00:00Z''))
     = Some (hub_mixed\<lparr>broadcast := [\<lparr>Channel = ''overlay:T1'', Message = ''donation''\<rparr>]\<rparr>)"
proof -
  from BroadcastDonation_overlay_only[of "\<lambda>m. Inr (msg_Type m)" "''2026-01-01T00:00:00Z''" hub_mixed
      "NewDonationEvent ''d1'' ''Ann'' ''hi'' 50000 ''2026-01-01T00:00:00Z''"]
  obtain new where "reached (BroadcastDonation (\<lambda>m. Inr (msg_Type m)) ''2026-01-01T00:00:00Z'' hub_mixed
      (NewDonationEvent ''d1'' ''Ann'' ''hi'' 50000 ''2026-01-01T00:00:00Z''))
     = Some (hub_mixed\<lparr>broadcast := broadcast hub_mixed @ new\<rparr>)" by blast
  moreover have "BroadcastDonation (\<lambda>m. Inr (msg_Type m)) ''2026-01-01T00:00:00Z'' hub_mixed
      (NewDonationEvent ''d1'' ''Ann'' ''hi'' 50000 ''2026-01-01T00:00:00Z'')
     = Done (hub_mixed\<lparr>broadcast := [\<lparr>Channel = ''overlay:T1'', Message = ''donation''\<rparr>]\<rparr>)"
    by (simp add: BroadcastDonation_def donation_message_def hub_mixed_def hub_chan_cap_def)
  ultimately show ?thesis by simp
qed

subsection \<open>The hub keeps its invariant\<close>

text \<open>
  The well-formed states are closed under the hub's operations: registering a connection
  whose queue is open, unregistering any connection (shown with C9 above) and broadcasting
  keep them, and on them a broadcast never panics.
\<close>

lemma registerClient_wf:
  assumes "wf_hub h" and "\<not> send_closed (heap h c)"
    and "length (send (heap h c)) \<le> sendBufferSize"
  shows "wf_hub (registerClient h c)" and "registered (registerClient h c) c"
proof -
  define ch where "ch = cl_channel (heap h c)"
  define ms where "ms = (case map_of (clients h) ch of None \<Rightarrow> [] | Some ms \<Rightarrow> ms)"
  define ms' where "ms' = (if c \<in> set ms then ms else ms @ [c])"
  have h': "registerClient h c = h\<lparr>clients := AList.update ch ms' (clients h)\<rparr>"
    by (cases "map_of (clients h) (cl_channel (heap h c))")
       (simp_all add: registerClient_def Let_def ch_def ms_def ms'_def)
  have wf: "distinct (map fst (clients h))"
    "\<And>k xs. map_of (clients h) k = Some xs \<Longrightarrow>
        distinct xs \<and> xs \<noteq> [] \<and>
        (\<forall>d \<in> set xs. cl_channel (heap h d) = k \<and> \<not> send_closed (heap h d)
           \<and> length (send (heap h d)) \<le> sendBufferSize)"
    using assms(1) by (auto simp: wf_hub_alt)
  have old: "distinct ms" "\<And>d. d \<in> set ms \<Longrightarrow> cl_channel (heap h d) = ch \<and> \<not> send_closed (heap h d)
           \<and> length (send (heap h d)) \<le> sendBufferSize"
  proof -
    show "distinct ms"
    proof (cases "map_of (clients h) ch")
      case None then show ?thesis by (simp add: ms_def)
    next
      case (Some xs) with wf(2)[OF Some] show ?thesis by (simp add: ms_def)
    qed
    fix d assume "d \<in> set ms"
    then show "cl_channel (heap h d) = ch \<and> \<not> send_closed (heap h d)
           \<and> length (send (heap h d)) \<le> sendBufferSize"
    proof (cases "map_of (clients h) ch")
      case None with \<open>d \<in> set ms\<close> show ?thesis by (simp add: ms_def)
    next
      case (Some xs) with wf(2)[OF Some] \<open>d \<in> set ms\<close> show ?thesis by (simp add: ms_def)
    qed
  qed
  have new: "distinct ms'" "ms' \<noteq> []" "c \<in> set ms'"
    "\<And>d. d \<in> set ms' \<Longrightarrow> cl_channel (heap h d) = ch \<and> \<not> send_closed (heap h d)
           \<and> length (send (heap h d)) \<le> sendBufferSize"
  proof -
    show "distinct ms'" using old(1) by (simp add: ms'_def)
    show "c \<in> set ms'" by (simp add: ms'_def)
    then show "ms' \<noteq> []" by auto
    fix d assume "d \<in> set ms'"
    then have "d \<in> set ms \<or> d = c" by (auto simp: ms'_def split: if_splits)
    then show "cl_channel (heap h d) = ch \<and> \<not> send_closed (heap h d)
           \<and> length (send (heap h d)) \<le> sendBufferSize"
      using old(2) assms(2,3) ch_def by blast
  qed
  show "registered (registerClient h c) c"
    using new(3) by (simp add: h' registered_def update_conv' ch_def)
  show "wf_hub (registerClient h c)"
    unfolding wf_hub_alt
  proof (rule conjI)
    show "distinct (map fst (clients (registerClient h c)))"
      using wf(1) by (simp add: h' distinct_update)
  next
    show "\<forall>k xs. map_of (clients (registerClient h c)) k = Some xs \<longrightarrow>
        distinct xs \<and> xs \<noteq> [] \<and>
        (\<forall>d \<in> set xs. cl_channel (heap (registerClient h c) d) = k
           \<and> \<not> send_closed (heap (registerClient h c) d)
           \<and> length (send (heap (registerClient h c) d)) \<le> sendBufferSize)"
    proof (intro allI impI)
      fix k xs
      assume m: "map_of (clients (registerClient h c)) k = Some xs"
      have hp: "heap (registerClient h c) = heap h" by (simp add: h')
      show "distinct xs \<and> xs \<noteq> [] \<and>
        (\<forall>d \<in> set xs. cl_channel (heap (registerClient h c) d) = k
           \<and> \<not> send_closed (heap (registerClient h c) d)
           \<and> length (send (heap (registerClient h c) d)) \<le> sendBufferSize)"
      proof (cases "k = ch")
        case True
        with m have "xs = ms'" by (simp add: h' update_conv')
        then show ?thesis using new True unfolding hp by blast
      next
        case False
        with m have "map_of (clients h) k = Some xs" by (simp add: h' update_conv')
        from wf(2)[OF this] show ?thesis unfolding hp by blast
      qed
    qed
  qed
qed

lemma broadcast_loop_inv:
  "reached (broadcast_loop h m cs) = Some h' \<Longrightarrow>
   clients h' = clients h
   \<and> (\<forall>a. cl_channel (heap h' a) = cl_channel (heap h a)
          \<and> send_closed (heap h' a) = send_closed (heap h a)
          \<and> (length (send (heap h a)) \<le> sendBufferSize
                \<longrightarrow> length (send (heap h' a)) \<le> sendBufferSize))"
proof (induction cs arbitrary: h)
  case Nil
  then show ?case by simp
next
  case (Cons c cs)
  show ?case
  proof (cases "send_closed (heap h c)")
    case True
    with Cons.prems show ?thesis by simp
  next
    case open_c: False
    show ?thesis
    proof (cases "length (send (heap h c)) < sendBufferSize")
      case True
      let ?h1 = "h\<lparr>heap := (heap h)(c := (heap h c)\<lparr>send := send (heap h c) @ [m]\<rparr>)\<rparr>"
      from Cons.prems open_c True have "reached (broadcast_loop ?h1 m cs) = Some h'"
        by (simp add: Let_def)
      from Cons.IH[OF this] True show ?thesis by (auto simp: Suc_le_eq)
    next
      case full: False
      show ?thesis
      proof (cases "length (unregister h) < hub_chan_cap")
        case True
        let ?h1 = "h\<lparr>unregister := unregister h @ [c]\<rparr>"
        from Cons.prems open_c full True have "reached (broadcast_loop ?h1 m cs) = Some h'"
          by (simp add: Let_def)
        from Cons.IH[OF this] show ?thesis by simp
      next
        case False
        with Cons.prems open_c full show ?thesis by (simp add: Let_def)
      qed
    qed
  qed
qed

lemma broadcastToChannel_wf:
  assumes "wf_hub h" and "reached (broadcastToChannel h msg) = Some h'"
  shows "wf_hub h'"
proof -
  have inv: "clients h' = clients h
   \<and> (\<forall>a. cl_channel (heap h' a) = cl_channel (heap h a)
          \<and> send_closed (heap h' a) = send_closed (heap h a)
          \<and> (length (send (heap h a)) \<le> sendBufferSize
                \<longrightarrow> length (send (heap h' a)) \<le> sendBufferSize))"
  proof (cases "map_of (clients h) (Channel msg)")
    case None
    with assms(2) show ?thesis by (simp add: broadcastToChannel_def)
  next
    case (Some ms)
    with assms(2) show ?thesis by (auto simp: broadcastToChannel_def dest!: broadcast_loop_inv)
  qed
  show ?thesis
    unfolding wf_hub_alt
  proof (rule conjI)
    show "distinct (map fst (clients h'))" using assms(1) inv by (simp add: wf_hub_alt)
  next
    show "\<forall>ch ms. map_of (clients h') ch = Some ms \<longrightarrow>
        distinct ms \<and> ms \<noteq> [] \<and>
        (\<forall>c \<in> set ms. cl_channel (heap h' c) = ch \<and> \<not> send_closed (heap h' c)
           \<and> length (send (heap h' c)) \<le> sendBufferSize)"
    proof (intro allI impI)
      fix ch ms
      assume "map_of (clients h') ch = Some ms"
      then have "map_of (clients h) ch = Some ms" using inv by simp
      from wf_hub_map_of[OF assms(1) this] inv
      show "distinct ms \<and> ms \<noteq> [] \<and>
        (\<forall>c \<in> set ms. cl_channel (heap h' c) = ch \<and> \<not> send_closed (heap h' c)
           \<and> length (send (heap h' c)) \<le> sendBufferSize)"
        by simp
    qed
  qed
qed

lemma broadcast_loop_no_panic:
  "\<forall>c \<in> set cs. \<not> send_closed (heap h c) \<Longrightarrow> \<exists>h'. reached (broadcast_loop h m cs) = Some h'"
proof (induction cs arbitrary: h)
  case Nil
  then show ?case by simp
next
  case (Cons c cs)
  let ?h1 = "h\<lparr>heap := (heap h)(c := (heap h c)\<lparr>send := send (heap h c) @ [m]\<rparr>)\<rparr>"
  let ?h2 = "h\<lparr>unregister := unregister h @ [c]\<rparr>"
  have 1: "\<exists>h'. reached (broadcast_loop ?h1 m cs) = Some h'"
    using Cons.prems by (intro Cons.IH) simp
  have 2: "\<exists>h'. reached (broadcast_loop ?h2 m cs) = Some h'"
    using Cons.prems by (intro Cons.IH) simp
  have open_c: "\<not> send_closed (heap h c)" using Cons.prems by simp
  show ?case
  proof (cases "length (send (heap h c)) < sendBufferSize")
    case True
    then show ?thesis using 1 open_c by (simp add: Let_def)
  next
    case False
    then show ?thesis using 2 open_c by (cases "length (unregister h) < hub_chan_cap") (simp_all add: Let_def)
  qed
qed

lemma broadcastToChannel_no_panic:
  assumes "wf_hub h"
  shows "\<exists>h'. reached (broadcastToChannel h msg) = Some h'"
proof (cases "map_of (clients h) (Channel msg)")
  case None
  then show ?thesis by (simp add: broadcastToChannel_def)
next
  case (Some ms)
  then show ?thesis
    using wf_hub_map_of[OF assms Some] broadcast_loop_no_panic[of ms h "Message msg"]
    by (simp add: broadcastToChannel_def)
qed

section \<open>Properties of the donation service\<close>

lemma Cache_SetNX_cases:
  "Cache_SetNX e w key v ttl =
     (case setnx_fault e of
        Some err \<Rightarrow> ((False, Some err), w)
      | None \<Rightarrow>
          if key_live w key then ((False, None), w)
          else ((True, None),
                w\<lparr>cache := AList.update key (CHR 0x22 # v @ [CHR 0x22], clock w + ttl) (cache w)\<rparr>))"
  by (simp add: Cache_SetNX_def client_SetNX_def json_Marshal_string_def)

lemma ProcessWebhook_unfold:
  "ProcessWebhook e w params =
     (let r = Cache_SetNX e w
                (IdempotencyKey (pw_Provider params) (pw_OrderID params) (pw_TransactionID params))
                ''processing'' (24 * Hour);
          w1 = snd r
      in if \<not> fst (fst r) then (None, w1)
         else
           (case payment_GetByExternalID e w1 (pw_Provider params) (pw_OrderID params) of
              Inl err \<Rightarrow> (Some (Errorf ''payment not found: '' err), w1)
            | Inr pay \<Rightarrow>
                if IsPaid pay then (None, w1)
                else if pw_Status params = StatusPaid then ProcessWebhook_paid e w1 pay
                else if pw_Status params = StatusExpired then ProcessWebhook_expired e w1 pay
                else if pw_Status params = StatusFailed then ProcessWebhook_failed e w1 pay
                else (None, w1)))"
proof -
  obtain ok err w1 where r: "Cache_SetNX e w
      (IdempotencyKey (pw_Provider params) (pw_OrderID params) (pw_TransactionID params))
      ''processing'' (24 * Hour) = ((ok, err), w1)"
    by (metis prod.exhaust)
  show ?thesis by (simp add: ProcessWebhook_def Let_def r cong: sum.case_cong if_cong)
qed

lemma ProcessWebhook_set:
  "Cache_SetNX e w
      (IdempotencyKey (pw_Provider params) (pw_OrderID params) (pw_TransactionID params))
      ''processing'' (24 * Hour) = ((True, err), w1) \<Longrightarrow>
   ProcessWebhook e w params =
     (case payment_GetByExternalID e w1 (pw_Provider params) (pw_OrderID params) of
        Inl err \<Rightarrow> (Some (Errorf ''payment not found: '' err), w1)
      | Inr pay \<Rightarrow>
          if IsPaid pay then (None, w1)
          else if pw_Status params = StatusPaid then ProcessWebhook_paid e w1 pay
          else if pw_Status params = StatusExpired then ProcessWebhook_expired e w1 pay
          else if pw_Status params = StatusFailed then ProcessWebhook_failed e w1 pay
          else (None, w1))"
  by (simp add: ProcessWebhook_def Let_def)

lemma ProcessWebhook_not_set:
  "\<not> fst (fst (Cache_SetNX e w
      (IdempotencyKey (pw_Provider params) (pw_OrderID params) (pw_TransactionID params))
      ''processing'' (24 * Hour))) \<Longrightarrow>
   ProcessWebhook e w params =
     (None, snd (Cache_SetNX e w
       (IdempotencyKey (pw_Provider params) (pw_OrderID params) (pw_TransactionID params))
       ''processing'' (24 * Hour)))"
  by (simp add: ProcessWebhook_unfold Let_def)

lemma ProcessWebhook_live_key:
  "key_live w (IdempotencyKey (pw_Provider params) (pw_OrderID params) (pw_TransactionID params))
   \<Longrightarrow> ProcessWebhook e w params = (None, w)"
  by (simp add: ProcessWebhook_not_set Cache_SetNX_cases split: option.splits)

text \<open>
  C2 says that a webhook is still processed when the set-if-absent call fails. The code
  does the opposite: the client returns \<open>false\<close> with the error, the error is only
  logged, and the test \<open>!set\<close> then takes the webhook for a duplicate. Whenever the
  call fails, \<open>ProcessWebhook\<close> returns \<open>nil\<close> and leaves every store as it
  was, without looking the payment up.
\<close>

theorem ProcessWebhook_store_error:
  "setnx_fault e = Some err \<Longrightarrow> ProcessWebhook e w params = (None, w)"
  by (simp add: ProcessWebhook_not_set Cache_SetNX_cases)

theorem ProcessWebhook_store_error_witness:
  "setnx_fault env_cache_down = Some (Error ''dial tcp: connection refused'')
   \<and> payment_GetByExternalID env_cache_down world0 ProviderMidtrans ''DON-abc'' = Inr pay0
   \<and> \<not> IsPaid pay0
   \<and> ProcessWebhook env_cache_down world0 (params0 StatusPaid) = (None, world0)"
proof -
  have f: "setnx_fault env_cache_down = Some (Error ''dial tcp: connection refused'')"
    by (simp add: env_cache_down_def env0_def)
  have "payment_GetByExternalID env_cache_down world0 ProviderMidtrans ''DON-abc'' = Inr pay0"
    by (simp add: payment_GetByExternalID_def scanPayment_def env_cache_down_def env0_def
          world0_def pay0_def)
  moreover have "\<not> IsPaid pay0"
    by (simp add: IsPaid_def pay0_def StatusPaid_def StatusPending_def)
  ultimately show ?thesis
    using f ProcessWebhook_store_error [OF f, of world0 "params0 StatusPaid"] by simp
qed

text \<open>
  C4: a webhook whose idempotency key is held in the store (claimed by an earlier call and
  not yet expired) makes \<open>ProcessWebhook\<close> return \<open>nil\<close> with the payments, the
  donations and the published events as they were; indeed nothing at all is changed,
  whatever the webhook reports and whether or not the external services answer.
\<close>

theorem ProcessWebhook_replay_noop:
  "key_live w (IdempotencyKey (pw_Provider params) (pw_OrderID params) (pw_TransactionID params))
   \<Longrightarrow> fst (ProcessWebhook e w params) = None
     \<and> payments (snd (ProcessWebhook e w params)) = payments w
     \<and> donations (snd (ProcessWebhook e w params)) = donations w
     \<and> published (snd (ProcessWebhook e w params)) = published w
     \<and> snd (ProcessWebhook e w params) = w"
  by (simp add: ProcessWebhook_live_key)

theorem ProcessWebhook_replay_noop_witness:
  "key_live world_claimed (IdempotencyKey ProviderMidtrans ''DON-abc'' ''tx1'')
   \<and> payments world_claimed = [pay0]
   \<and> ProcessWebhook env0 world_claimed (params0 StatusPaid) = (None, world_claimed)"
proof -
  have k: "key_live world_claimed (IdempotencyKey (pw_Provider (params0 StatusPaid))
             (pw_OrderID (params0 StatusPaid)) (pw_TransactionID (params0 StatusPaid)))"
    by (simp add: key_live_def world_claimed_def world0_def IdempotencyKey_def
          KeyPrefixWebhook_def params0_def ProviderMidtrans_def)
  have "payments world_claimed = [pay0]" by (simp add: world_claimed_def world0_def)
  then show ?thesis
    using k ProcessWebhook_replay_noop [OF k, of env0]
    by (simp add: params0_def prod_eq_iff)
qed

text \<open>
  C10: take a webhook whose key is not held in the store and whose provider and order id
  match no payment, at a moment when the store answers. \<open>ProcessWebhook\<close> returns a
  not-found error and leaves the key claimed for 24 hours, with nothing else changed. Any
  later call for the same provider, order id and transaction id made before those 24
  hours are over, while the key is still held, returns \<open>nil\<close> and changes nothing,
  whatever the payments table holds by then and whatever the webhook reports.
\<close>

theorem ProcessWebhook_claim_kept:
  assumes "setnx_fault e = None"
    and "\<not> key_live w (IdempotencyKey (pw_Provider params) (pw_OrderID params) (pw_TransactionID params))"
    and "find (\<lambda>p. pay_Provider p = pw_Provider params \<and> ExternalID p = pw_OrderID params)
           (payments w) = None"
  shows "ProcessWebhook e w params =
       (Some (Errorf ''payment not found: ''
                (case pay_get_fault e of None \<Rightarrow> Error ''payment not found''
                 | Some f \<Rightarrow> Errorf ''failed to scan payment: '' f)),
        w\<lparr>cache := AList.update
               (IdempotencyKey (pw_Provider params) (pw_OrderID params) (pw_TransactionID params))
               (CHR 0x22 # ''processing'' @ [CHR 0x22], clock w + 24 * Hour) (cache w)\<rparr>)
     \<and> (\<forall>e' w'.
           map_of (cache w') (IdempotencyKey (pw_Provider params) (pw_OrderID params)
              (pw_TransactionID params))
             = Some (CHR 0x22 # ''processing'' @ [CHR 0x22], clock w + 24 * Hour)
           \<and> clock w' < clock w + 24 * Hour
           \<longrightarrow> ProcessWebhook e' w' params = (None, w'))"
proof -
  let ?key = "IdempotencyKey (pw_Provider params) (pw_OrderID params) (pw_TransactionID params)"
  let ?w1 = "w\<lparr>cache := AList.update ?key
                (CHR 0x22 # ''processing'' @ [CHR 0x22], clock w + 24 * Hour) (cache w)\<rparr>"
  let ?err = "case pay_get_fault e of None \<Rightarrow> Error ''payment not found''
              | Some f \<Rightarrow> Errorf ''failed to scan payment: '' f"
  have set: "Cache_SetNX e w ?key ''processing'' (24 * Hour) = ((True, None), ?w1)"
    using assms(1,2) by (simp add: Cache_SetNX_cases)
  have look: "payment_GetByExternalID e ?w1 (pw_Provider params) (pw_OrderID params) = Inl ?err"
    using assms(3) by (simp add: payment_GetByExternalID_def scanPayment_def split: option.splits)
  have first: "ProcessWebhook e w params = (Some (Errorf ''payment not found: '' ?err), ?w1)"
    by (simp only: ProcessWebhook_set[OF set] look sum.case)
  have later: "ProcessWebhook e' w' params = (None, w')"
    if "map_of (cache w') ?key = Some (CHR 0x22 # ''processing'' @ [CHR 0x22], clock w + 24 * Hour)"
       "clock w' < clock w + 24 * Hour"
    for e' w'
  proof -
    have "key_live w' ?key" using that by (simp add: key_live_def)
    then show ?thesis by (rule ProcessWebhook_live_key)
  qed
  show ?thesis using first later by blast
qed

theorem ProcessWebhook_claim_kept_witness:
  "setnx_fault env0 = None
   \<and> \<not> key_live world_nopay (IdempotencyKey ProviderMidtrans ''DON-abc'' ''tx1'')
   \<and> payments world_nopay = []
   \<and> ProcessWebhook env0 world_nopay (params0 StatusPaid)
        = (Some (Error ''payment not found: payment not found''),
           world_nopay\<lparr>cache := cache world_claimed\<rparr>)
   \<and> payments (world_claimed\<lparr>clock := 80000\<rparr>) = [pay0]
   \<and> ProcessWebhook env0 (world_claimed\<lparr>clock := 80000\<rparr>) (params0 StatusPaid)
        = (None, world_claimed\<lparr>clock := 80000\<rparr>)"
proof -
  let ?p = "params0 StatusPaid"
  let ?key = "IdempotencyKey (pw_Provider ?p) (pw_OrderID ?p) (pw_TransactionID ?p)"
  have key: "?key = ''webhook:midtrans:DON-abc:tx1''"
    by (simp add: IdempotencyKey_def KeyPrefixWebhook_def params0_def ProviderMidtrans_def)
  have a1: "setnx_fault env0 = None" by (simp add: env0_def)
  have a2: "\<not> key_live world_nopay ?key"
    by (simp add: key_live_def world_nopay_def world0_def)
  have a3: "find (\<lambda>p. pay_Provider p = pw_Provider ?p \<and> ExternalID p = pw_OrderID ?p)
              (payments world_nopay) = None"
    by (simp add: world_nopay_def world0_def)
  note kept = ProcessWebhook_claim_kept [OF a1 a2 a3]
  have first: "ProcessWebhook env0 world_nopay ?p
          = (Some (Error ''payment not found: payment not found''),
             world_nopay\<lparr>cache := cache world_claimed\<rparr>)"
    using kept [THEN conjunct1] unfolding key
    by (simp add: env0_def world_nopay_def world_claimed_def world0_def Hour_def)
  have later: "ProcessWebhook env0 (world_claimed\<lparr>clock := 80000\<rparr>) ?p
                   = (None, world_claimed\<lparr>clock := 80000\<rparr>)"
    using kept [THEN conjunct2, rule_format, where e' = env0 and w' = "world_claimed\<lparr>clock := 80000\<rparr>"]
    unfolding key
    by (simp add: world_nopay_def world_claimed_def world0_def Hour_def)
  have "payments (world_claimed\<lparr>clock := 80000\<rparr>) = [pay0]" "payments world_nopay = []"
    by (simp_all add: world_claimed_def world_nopay_def world0_def)
  moreover have "IdempotencyKey ProviderMidtrans ''DON-abc'' ''tx1'' = ''webhook:midtrans:DON-abc:tx1''"
    by (simp add: IdempotencyKey_def KeyPrefixWebhook_def ProviderMidtrans_def)
  ultimately show ?thesis using a1 a2 first later by (simp add: key)
qed

text \<open>
  C1 says that a paid payment keeps its status under later webhooks and manual
  reconciliations that report another status. \<open>ProcessWebhook\<close> has the guard for it
  (\<open>ProcessWebhook_keeps_paid\<close> below); \<open>ManualReconcile\<close> has none: asked to
  mark the paid payment 1 as failed, it returns \<open>nil\<close> and the payment is failed.
\<close>

theorem ManualReconcile_overwrites_paid:
  "payment_GetByID env0 world_paid 1 = Inr (pay0\<lparr>pay_Status := StatusPaid, pay_PaidAt := Some 500\<rparr>)
   \<and> IsPaid (pay0\<lparr>pay_Status := StatusPaid, pay_PaidAt := Some 500\<rparr>)
   \<and> StatusFailed \<noteq> StatusPaid
   \<and> fst (ManualReconcile env0 world_paid 1 StatusFailed ''chargeback (by admin)'') = None
   \<and> map pay_Status
        (payments (snd (ManualReconcile env0 world_paid 1 StatusFailed ''chargeback (by admin)'')))
       = [StatusFailed]"
  by (simp add: ManualReconcile_def payment_GetByID_def scanPayment_def donation_GetByID_def
        scanDonation_def payment_Update_def donation_Update_def MarkAsFailed_def
        donation_MarkAsFailed_def IsPaid_def env0_def world_paid_def world0_def pay0_def don0_def
        StatusPaid_def StatusFailed_def Let_def)

text \<open>
  The webhook path does keep paid payments: with unique payment ids, a paid payment of the
  table is still in the table, unchanged, after any call of \<open>ProcessWebhook\<close>.
\<close>

lemma payment_Update_other:
  "payment_Update e w q = Inr w' \<Longrightarrow> pay_ID q \<noteq> pay_ID p \<Longrightarrow> p \<in> set (payments w)
   \<Longrightarrow> p \<in> set (payments w')"
  by (auto simp: payment_Update_def image_iff split: option.splits if_splits intro!: bexI[of _ p])

lemma donation_Update_payments:
  "donation_Update e w d = Inr w' \<Longrightarrow> payments w' = payments w"
  by (auto simp: donation_Update_def split: option.splits if_splits)

lemma PublishDonationEvent_payments:
  "payments (snd (PublishDonationEvent e w ev)) = payments w"
  by (simp add: PublishDonationEvent_def split: option.splits)

lemma arms_keep_other:
  assumes "pay_ID q \<noteq> pay_ID p" "p \<in> set (payments w)"
  shows "p \<in> set (payments (snd (ProcessWebhook_paid e w q)))"
    and "p \<in> set (payments (snd (ProcessWebhook_expired e w q)))"
    and "p \<in> set (payments (snd (ProcessWebhook_failed e w q)))"
  using assms
  by (auto simp: ProcessWebhook_paid_def ProcessWebhook_expired_def ProcessWebhook_failed_def
        Let_def MarkAsPaid_def MarkAsExpired_def MarkAsFailed_def PublishDonationEvent_payments
      split: sum.splits
      dest!: donation_Update_payments
      dest: payment_Update_other[where p = p])

lemma Cache_SetNX_payments:
  "payments (snd (Cache_SetNX e w key v ttl)) = payments w"
  by (simp add: Cache_SetNX_cases split: option.splits)

lemma ProcessWebhook_keeps_paid:
  assumes "distinct (map pay_ID (payments w))" and "p \<in> set (payments w)" and "IsPaid p"
  shows "p \<in> set (payments (snd (ProcessWebhook e w params)))"
proof -
  let ?r = "Cache_SetNX e w
              (IdempotencyKey (pw_Provider params) (pw_OrderID params) (pw_TransactionID params))
              ''processing'' (24 * Hour)"
  have pw1: "payments (snd ?r) = payments w" by (rule Cache_SetNX_payments)
  show ?thesis
  proof (cases "payment_GetByExternalID e (snd ?r) (pw_Provider params) (pw_OrderID params)")
    case (Inl err)
    then show ?thesis using assms(2) pw1 by (simp add: ProcessWebhook_unfold Let_def)
  next
    case (Inr q)
    then have "q \<in> set (payments w)"
      by (auto simp: payment_GetByExternalID_def scanPayment_def pw1 find_Some_iff
            split: option.splits)
    then have other: "pay_ID q \<noteq> pay_ID p" if "\<not> IsPaid q"
      using that assms by (auto simp: distinct_map inj_on_def)
    show ?thesis
      using Inr assms(2) pw1 arms_keep_other[OF other, of "snd ?r" e]
      by (simp add: ProcessWebhook_unfold Let_def)
  qed
qed


section \<open>Properties of the webhook ingress\<close>

lemma verify_env0:
  "fst (verifyMidtransSignature env0 config0 (webhook0 signature)) \<longleftrightarrow> signature = ''ab01''"
  by (auto simp: verifyMidtransSignature_def Let_def hmac_Equal_iff bytes_inj env0_def webhook0_def
        hextable_def drop_bit_eq_div)

subsection \<open>The handler of the server\<close>

lemma logWebhook_nil:
  "webhookLogRepo h = nil_WebhookLogRepository \<Longrightarrow>
   logWebhook e h w r provider body = Inl NilPointerDereference"
  by (simp add: logWebhook_def)

lemma HandleMidtrans_nil:
  "webhookLogRepo h = nil_WebhookLogRepository \<Longrightarrow> req_Body r = Inr body \<Longrightarrow>
   HandleMidtrans e h w r = (Inl NilPointerDereference, w)"
  by (simp add: HandleMidtrans_def logWebhook_nil)

text \<open>
  C3: a Midtrans webhook request whose signature is invalid should be answered with the
  unauthorized outcome, persist nothing and write no idempotency key, and a corrected retry
  of the same callback with a valid signature should then succeed. The server does not do
  this. \<open>NewServer\<close> builds its webhook handler with a nil log repository, and
  \<open>HandleMidtrans\<close> calls \<open>logWebhook\<close>, hence \<open>h.webhookLogRepo.Create\<close>,
  right after reading the body. So for every request whose body can be read, whatever its
  payload and its signature, the handler panics before it parses the payload or checks the
  signature: the \<open>Recoverer\<close> answers 500, which is not the unauthorized outcome, and
  the stores are left as they were.
\<close>

theorem POST_webhooks_midtrans_panics:
  assumes "req_Body r = Inr body"
  shows "HandleMidtrans e (NewServer_webhookHandler cfg) w r = (Inl NilPointerDereference, w)
     \<and> POST_webhooks_midtrans e cfg w r =
           (\<lparr>resp_Status = StatusInternalServerError, resp_Body = NoBody\<rparr>, w)
     \<and> resp_Status (fst (POST_webhooks_midtrans e cfg w r)) \<noteq> StatusUnauthorized"
proof -
  have "webhookLogRepo (NewServer_webhookHandler cfg) = nil_WebhookLogRepository"
    by (simp add: NewServer_webhookHandler_def NewWebhookHandler_def)
  then have "HandleMidtrans e (NewServer_webhookHandler cfg) w r = (Inl NilPointerDereference, w)"
    using assms by (rule HandleMidtrans_nil)
  then show ?thesis
    by (simp add: POST_webhooks_midtrans_def Recoverer_def StatusInternalServerError_def
          StatusUnauthorized_def)
qed

text \<open>
  On the stores \<open>world0\<close>, which hold the pending payment of the order: the request
  with the forged signature \<open>0000\<close> is answered 500 and nothing is stored; the
  corrected retry, whose signature \<open>ab01\<close> is the valid one, is answered 500 as well
  and leaves the payment pending.
\<close>

theorem POST_webhooks_midtrans_panics_witness:
  "req_Body (request0 ''forged'') = Inr ''forged''
   \<and> json_Unmarshal env0 ''forged'' = Inr (webhook0 ''0000'')
   \<and> \<not> fst (verifyMidtransSignature env0 config0 (webhook0 ''0000''))
   \<and> HandleMidtrans env0 (NewServer_webhookHandler config0) world0 (request0 ''forged'')
       = (Inl NilPointerDereference, world0)
   \<and> POST_webhooks_midtrans env0 config0 world0 (request0 ''forged'')
       = (\<lparr>resp_Status = 500, resp_Body = NoBody\<rparr>, world0)
   \<and> StatusUnauthorized = 401
   \<and> req_Body (request0 ''signed'') = Inr ''signed''
   \<and> json_Unmarshal env0 ''signed'' = Inr (webhook0 ''ab01'')
   \<and> fst (verifyMidtransSignature env0 config0 (webhook0 ''ab01''))
   \<and> POST_webhooks_midtrans env0 config0 world0 (request0 ''signed'')
       = (\<lparr>resp_Status = 500, resp_Body = NoBody\<rparr>, world0)
   \<and> map pay_Status (payments world0) = [StatusPending]"
proof -
  have b: "req_Body (request0 body) = Inr body" for body by (simp add: request0_def)
  have j: "json_Unmarshal env0 ''forged'' = Inr (webhook0 ''0000'')"
    "json_Unmarshal env0 ''signed'' = Inr (webhook0 ''ab01'')"
    by (simp_all add: env0_def decode0_def)
  have p: "map pay_Status (payments world0) = [StatusPending]"
    by (simp add: world0_def pay0_def)
  show ?thesis
    using b j p POST_webhooks_midtrans_panics [OF b, of env0 config0 world0 "''forged''"]
      POST_webhooks_midtrans_panics [OF b, of env0 config0 world0 "''signed''"]
    by (simp add: verify_env0 StatusInternalServerError_def StatusUnauthorized_def)
qed

subsection \<open>A handler with a log repository\<close>

text \<open>
  What \<open>HandleMidtrans\<close> does when its handler is given the repository over the
  database, as \<open>NewWebhookHandler\<close> allows. The log table is written by no other
  operation of the service and read by none, so the service runs in the same way whatever
  the table holds.
\<close>

lemma Cache_SetNX_logs:
  "Cache_SetNX e (w\<lparr>webhook_logs := L\<rparr>) key v ttl =
     (fst (Cache_SetNX e w key v ttl), (snd (Cache_SetNX e w key v ttl))\<lparr>webhook_logs := L\<rparr>)"
  by (simp add: Cache_SetNX_cases key_live_def split: option.splits)

lemma payment_GetByExternalID_logs:
  "payment_GetByExternalID e (w\<lparr>webhook_logs := L\<rparr>) pr ex = payment_GetByExternalID e w pr ex"
  by (simp add: payment_GetByExternalID_def)

lemma donation_GetByID_logs:
  "donation_GetByID e (w\<lparr>webhook_logs := L\<rparr>) i = donation_GetByID e w i"
  by (simp add: donation_GetByID_def)

lemma payment_Update_logs:
  "payment_Update e (w\<lparr>webhook_logs := L\<rparr>) q =
     (case payment_Update e w q of Inl err \<Rightarrow> Inl err | Inr w' \<Rightarrow> Inr (w'\<lparr>webhook_logs := L\<rparr>))"
  by (simp add: payment_Update_def split: option.splits)

lemma donation_Update_logs:
  "donation_Update e (w\<lparr>webhook_logs := L\<rparr>) d =
     (case donation_Update e w d of Inl err \<Rightarrow> Inl err | Inr w' \<Rightarrow> Inr (w'\<lparr>webhook_logs := L\<rparr>))"
  by (simp add: donation_Update_def split: option.splits)

lemma PublishDonationEvent_logs:
  "snd (PublishDonationEvent e (w\<lparr>webhook_logs := L\<rparr>) ev) =
     (snd (PublishDonationEvent e w ev))\<lparr>webhook_logs := L\<rparr>"
  by (simp add: PublishDonationEvent_def split: option.splits)

lemma payment_Update_clock: "payment_Update e w q = Inr w' \<Longrightarrow> clock w' = clock w"
  by (auto simp: payment_Update_def split: option.splits if_splits)

lemma arms_logs:
  "ProcessWebhook_paid e (w\<lparr>webhook_logs := L\<rparr>) q =
     (fst (ProcessWebhook_paid e w q), (snd (ProcessWebhook_paid e w q))\<lparr>webhook_logs := L\<rparr>)"
  "ProcessWebhook_expired e (w\<lparr>webhook_logs := L\<rparr>) q =
     (fst (ProcessWebhook_expired e w q), (snd (ProcessWebhook_expired e w q))\<lparr>webhook_logs := L\<rparr>)"
  "ProcessWebhook_failed e (w\<lparr>webhook_logs := L\<rparr>) q =
     (fst (ProcessWebhook_failed e w q), (snd (ProcessWebhook_failed e w q))\<lparr>webhook_logs := L\<rparr>)"
  by (auto simp: ProcessWebhook_paid_def ProcessWebhook_expired_def ProcessWebhook_failed_def
        Let_def payment_Update_logs donation_Update_logs donation_GetByID_logs
        PublishDonationEvent_logs
      split: sum.splits)

lemma ProcessWebhook_logs:
  "ProcessWebhook e (w\<lparr>webhook_logs := L\<rparr>) params =
     (fst (ProcessWebhook e w params), (snd (ProcessWebhook e w params))\<lparr>webhook_logs := L\<rparr>)"
  by (auto simp: ProcessWebhook_unfold Let_def Cache_SetNX_logs payment_GetByExternalID_logs arms_logs
      split: sum.splits)

lemma logWebhook_eq:
  "webhookLogRepo h = postgres_WebhookLogRepository \<Longrightarrow>
   logWebhook e h w r provider body =
     Inr (w\<lparr>webhook_logs := webhook_logs w @
         (case WebhookLog_Create e w (new_log_entry w r provider body) of
            Inl err \<Rightarrow> []
          | Inr w1 \<Rightarrow> [log_row (new_log_entry w r provider body)])\<rparr>)"
  by (simp add: logWebhook_def WebhookLog_Create_def split: option.splits)

lemma HandleMidtrans_signed:
  assumes "logWebhook e h w r ProviderMidtrans body = Inr w1"
    and "req_Body r = Inr body" and "json_Unmarshal e body = Inr webhook"
    and "fst (verifyMidtransSignature e (h_config h) webhook)"
  shows "HandleMidtrans e h w r =
     (let res = ProcessWebhook e w1
                  \<lparr>pw_Provider = ProviderMidtrans, pw_OrderID = OrderID webhook,
                   pw_TransactionID = TransactionID webhook,
                   pw_Status = mapMidtransStatus (TransactionStatus webhook) (FraudStatus webhook),
                   pw_PaidAt = (if SettlementTime webhook \<noteq> ''''
                                then time_Parse e ''2006-01-02 15:04:05'' (SettlementTime webhook)
                                else 0),
                   RawPayload = body\<rparr>
      in (Inr (case fst res of
                 Some (Error msg) \<Rightarrow>
                   respondJSON StatusOK (JSONObject [(''status'', ''error''), (''message'', msg)])
               | None \<Rightarrow> respondJSON StatusOK (JSONObject [(''status'', ''ok'')])),
          snd res))"
  using assms
  by (simp add: HandleMidtrans_def Let_def split: prod.splits option.splits error.splits)

lemma HandleMidtrans_rejected:
  assumes "logWebhook e h w r ProviderMidtrans body = Inr w1"
    and "req_Body r = Inr body" and "json_Unmarshal e body = Inr webhook"
    and "\<not> fst (verifyMidtransSignature e (h_config h) webhook)"
  shows "HandleMidtrans e h w r =
     (Inr (respondError StatusUnauthorized ''INVALID_SIGNATURE'' ''Invalid webhook signature''),
      w1)"
  using assms by (simp add: HandleMidtrans_def Let_def)

lemma new_log_entry_logs:
  "new_log_entry (w\<lparr>webhook_logs := L\<rparr>) r p body = new_log_entry w r p body"
  by (simp add: new_log_entry_def)

lemma HandleMidtrans_logs:
  assumes repo: "webhookLogRepo h = postgres_WebhookLogRepository"
  shows "fst (HandleMidtrans e h (w\<lparr>webhook_logs := L\<rparr>) r) = fst (HandleMidtrans e h w r)
   \<and> (snd (HandleMidtrans e h (w\<lparr>webhook_logs := L\<rparr>) r))\<lparr>webhook_logs := X\<rparr>
       = (snd (HandleMidtrans e h w r))\<lparr>webhook_logs := X\<rparr>"
proof (cases "req_Body r")
  case (Inl err)
  then show ?thesis by (simp add: HandleMidtrans_def)
next
  case body: (Inr body)
  note lg = logWebhook_eq [OF repo, of e _ r ProviderMidtrans body]
  show ?thesis
  proof (cases "json_Unmarshal e body")
    case (Inl err)
    then show ?thesis using body
      by (simp add: HandleMidtrans_def Let_def lg new_log_entry_logs)
  next
    case hook: (Inr webhook)
    show ?thesis
    proof (cases "fst (verifyMidtransSignature e (h_config h) webhook)")
      case False
      then show ?thesis
        by (simp add: HandleMidtrans_rejected[OF lg body hook] new_log_entry_logs)
    next
      case True
      show ?thesis
        by (simp add: HandleMidtrans_signed[OF lg body hook True] Let_def
              new_log_entry_logs ProcessWebhook_logs)
    qed
  qed
qed

text \<open>
  Such a handler answers a request whose body parses and whose signature is invalid with
  the unauthorized outcome \<open>INVALID_SIGNATURE\<close>. It writes no idempotency key,
  changes no payment and no donation and publishes no event, but it has persisted one row
  of the webhook log, inserted before the signature is checked (none if the insert
  fails). Every later request, in particular a corrected retry with a valid signature,
  gets the response and has the effect on the key space, the payments, the donations and
  the published events that it would have had if the rejected request had never arrived.
\<close>

lemma HandleMidtrans_rejected_effect:
  assumes repo: "webhookLogRepo h = postgres_WebhookLogRepository"
    and "req_Body r = Inr body" and "json_Unmarshal e body = Inr webhook"
    and "\<not> fst (verifyMidtransSignature e (h_config h) webhook)"
  shows "fst (HandleMidtrans e h w r)
           = Inr (respondError StatusUnauthorized ''INVALID_SIGNATURE''
                    ''Invalid webhook signature'')
     \<and> snd (HandleMidtrans e h w r)
           = w\<lparr>webhook_logs := webhook_logs w @
                 (case WebhookLog_Create e w (new_log_entry w r ProviderMidtrans body) of
                    Inl err \<Rightarrow> []
                  | Inr w1 \<Rightarrow> [log_row (new_log_entry w r ProviderMidtrans body)])\<rparr>
     \<and> (\<forall>e2 r2.
           fst (HandleMidtrans e2 h (snd (HandleMidtrans e h w r)) r2)
             = fst (HandleMidtrans e2 h w r2)
           \<and> cache (snd (HandleMidtrans e2 h (snd (HandleMidtrans e h w r)) r2))
               = cache (snd (HandleMidtrans e2 h w r2))
           \<and> payments (snd (HandleMidtrans e2 h (snd (HandleMidtrans e h w r)) r2))
               = payments (snd (HandleMidtrans e2 h w r2))
           \<and> donations (snd (HandleMidtrans e2 h (snd (HandleMidtrans e h w r)) r2))
               = donations (snd (HandleMidtrans e2 h w r2))
           \<and> published (snd (HandleMidtrans e2 h (snd (HandleMidtrans e h w r)) r2))
               = published (snd (HandleMidtrans e2 h w r2)))"
proof -
  let ?L = "webhook_logs w @
              (case WebhookLog_Create e w (new_log_entry w r ProviderMidtrans body) of
                 Inl err \<Rightarrow> []
               | Inr w1 \<Rightarrow> [log_row (new_log_entry w r ProviderMidtrans body)])"
  have rej: "HandleMidtrans e h w r =
      (Inr (respondError StatusUnauthorized ''INVALID_SIGNATURE'' ''Invalid webhook signature''),
       w\<lparr>webhook_logs := ?L\<rparr>)"
    by (rule HandleMidtrans_rejected [OF logWebhook_eq [OF repo] assms(2-4)])
  have later: "fst (HandleMidtrans e2 h (w\<lparr>webhook_logs := ?L\<rparr>) r2)
             = fst (HandleMidtrans e2 h w r2)
           \<and> cache (snd (HandleMidtrans e2 h (w\<lparr>webhook_logs := ?L\<rparr>) r2))
               = cache (snd (HandleMidtrans e2 h w r2))
           \<and> payments (snd (HandleMidtrans e2 h (w\<lparr>webhook_logs := ?L\<rparr>) r2))
               = payments (snd (HandleMidtrans e2 h w r2))
           \<and> donations (snd (HandleMidtrans e2 h (w\<lparr>webhook_logs := ?L\<rparr>) r2))
               = donations (snd (HandleMidtrans e2 h w r2))
           \<and> published (snd (HandleMidtrans e2 h (w\<lparr>webhook_logs := ?L\<rparr>) r2))
               = published (snd (HandleMidtrans e2 h w r2))" for e2 r2
  proof -
    from HandleMidtrans_logs[OF repo, where e = e2 and w = w and L = ?L and r = r2 and X = "[]"]
    have f: "fst (HandleMidtrans e2 h (w\<lparr>webhook_logs := ?L\<rparr>) r2)
               = fst (HandleMidtrans e2 h w r2)"
      and s: "(snd (HandleMidtrans e2 h (w\<lparr>webhook_logs := ?L\<rparr>) r2))\<lparr>webhook_logs := []\<rparr>
               = (snd (HandleMidtrans e2 h w r2))\<lparr>webhook_logs := []\<rparr>"
      by blast+
    from s have "cache ((snd (HandleMidtrans e2 h (w\<lparr>webhook_logs := ?L\<rparr>) r2))\<lparr>webhook_logs := []\<rparr>)
               = cache ((snd (HandleMidtrans e2 h w r2))\<lparr>webhook_logs := []\<rparr>)"
      "payments ((snd (HandleMidtrans e2 h (w\<lparr>webhook_logs := ?L\<rparr>) r2))\<lparr>webhook_logs := []\<rparr>)
               = payments ((snd (HandleMidtrans e2 h w r2))\<lparr>webhook_logs := []\<rparr>)"
      "donations ((snd (HandleMidtrans e2 h (w\<lparr>webhook_logs := ?L\<rparr>) r2))\<lparr>webhook_logs := []\<rparr>)
               = donations ((snd (HandleMidtrans e2 h w r2))\<lparr>webhook_logs := []\<rparr>)"
      "published ((snd (HandleMidtrans e2 h (w\<lparr>webhook_logs := ?L\<rparr>) r2))\<lparr>webhook_logs := []\<rparr>)
               = published ((snd (HandleMidtrans e2 h w r2))\<lparr>webhook_logs := []\<rparr>)"
      by simp_all
    then show ?thesis using f by simp
  qed
  show ?thesis unfolding rej using later by simp
qed

lemma ProcessWebhook_world0_paid:
  "fst (ProcessWebhook env0 world0 (params0 StatusPaid)) = None
   \<and> map pay_Status (payments (snd (ProcessWebhook env0 world0 (params0 StatusPaid)))) = [StatusPaid]"
proof -
  let ?p = "params0 StatusPaid"
  let ?key = "IdempotencyKey (pw_Provider ?p) (pw_OrderID ?p) (pw_TransactionID ?p)"
  let ?w1 = "world0\<lparr>cache := AList.update ?key
               (CHR 0x22 # ''processing'' @ [CHR 0x22], clock world0 + 24 * Hour) (cache world0)\<rparr>"
  have set: "Cache_SetNX env0 world0 ?key ''processing'' (24 * Hour) = ((True, None), ?w1)"
    by (simp add: Cache_SetNX_cases key_live_def env0_def world0_def)
  have look: "payment_GetByExternalID env0 ?w1 (pw_Provider ?p) (pw_OrderID ?p) = Inr pay0"
    by (simp add: payment_GetByExternalID_def scanPayment_def env0_def world0_def pay0_def
          params0_def)
  have np: "\<not> IsPaid pay0" by (simp add: IsPaid_def pay0_def StatusPaid_def StatusPending_def)
  have st: "pw_Status ?p = StatusPaid" by (simp add: params0_def)
  have run: "ProcessWebhook env0 world0 ?p = ProcessWebhook_paid env0 ?w1 pay0"
    by (simp only: ProcessWebhook_set[OF set] look sum.case np st if_False) simp
  show ?thesis
    unfolding run
    by (simp add: ProcessWebhook_paid_def payment_Update_def donation_GetByID_def scanDonation_def
          donation_Update_def PublishDonationEvent_def MarkAsPaid_def donation_MarkAsPaid_def
          env0_def world0_def pay0_def don0_def Let_def)
qed

text \<open>
  On the stores \<open>world0\<close>, whose log table is empty: the request with the forged
  signature is answered 401 and leaves one row in the log table and nothing else; the
  retry with the valid signature is then answered 200 and the payment is paid.
\<close>

lemma HandleMidtrans_rejected_then_signed:
  "webhook_logs world0 = []
   \<and> fst (HandleMidtrans env0 (NewWebhookHandler postgres_WebhookLogRepository config0) world0
            (request0 ''forged''))
       = Inr (respondError StatusUnauthorized ''INVALID_SIGNATURE'' ''Invalid webhook signature'')
   \<and> snd (HandleMidtrans env0 (NewWebhookHandler postgres_WebhookLogRepository config0) world0
            (request0 ''forged''))
       = world0\<lparr>webhook_logs :=
          [\<lparr>row_id = 0, row_provider = ''midtrans'', row_event_type = '''', row_external_id = '''',
           row_raw_payload = ''null'', row_signature = '''', row_ip_address = ''203.0.113.7'',
           row_created_at = 1000\<rparr>]\<rparr>
   \<and> fst (HandleMidtrans env0 (NewWebhookHandler postgres_WebhookLogRepository config0)
            (snd (HandleMidtrans env0 (NewWebhookHandler postgres_WebhookLogRepository config0)
                    world0 (request0 ''forged'')))
            (request0 ''signed''))
       = Inr (respondJSON StatusOK (JSONObject [(''status'', ''ok'')]))
   \<and> map pay_Status (payments
          (snd (HandleMidtrans env0 (NewWebhookHandler postgres_WebhookLogRepository config0)
            (snd (HandleMidtrans env0 (NewWebhookHandler postgres_WebhookLogRepository config0)
                    world0 (request0 ''forged'')))
            (request0 ''signed''))))
       = [StatusPaid]"
proof -
  define h where "h = NewWebhookHandler postgres_WebhookLogRepository config0"
  have repo: "webhookLogRepo h = postgres_WebhookLogRepository"
    and cfg: "h_config h = config0"
    by (simp_all add: h_def NewWebhookHandler_def)
  have b: "req_Body (request0 ''forged'') = Inr ''forged''" by (simp add: request0_def)
  have j: "json_Unmarshal env0 ''forged'' = Inr (webhook0 ''0000'')"
    by (simp add: env0_def decode0_def)
  have v: "\<not> fst (verifyMidtransSignature env0 (h_config h) (webhook0 ''0000''))"
    by (simp add: cfg verify_env0)
  have b2: "req_Body (request0 ''signed'') = Inr ''signed''" by (simp add: request0_def)
  have j2: "json_Unmarshal env0 ''signed'' = Inr (webhook0 ''ab01'')"
    by (simp add: env0_def decode0_def)
  have v2: "fst (verifyMidtransSignature env0 (h_config h) (webhook0 ''ab01''))"
    by (simp add: cfg verify_env0)
  have l: "WebhookLog_Create env0 world0
             (new_log_entry world0 (request0 ''forged'') ProviderMidtrans ''forged'')
      = Inr (world0\<lparr>webhook_logs :=
          [\<lparr>row_id = 0, row_provider = ''midtrans'', row_event_type = '''', row_external_id = '''',
           row_raw_payload = ''null'', row_signature = '''', row_ip_address = ''203.0.113.7'',
           row_created_at = 1000\<rparr>]\<rparr>)"
    by (simp add: WebhookLog_Create_def log_row_def new_log_entry_def getClientIP_def
          request0_def env0_def world0_def ProviderMidtrans_def)
  have lg: "logWebhook env0 h world0 (request0 ''forged'') ProviderMidtrans ''forged''
      = Inr (world0\<lparr>webhook_logs :=
          [\<lparr>row_id = 0, row_provider = ''midtrans'', row_event_type = '''', row_external_id = '''',
           row_raw_payload = ''null'', row_signature = '''', row_ip_address = ''203.0.113.7'',
           row_created_at = 1000\<rparr>]\<rparr>)"
    by (simp add: logWebhook_def repo l)
  note first = HandleMidtrans_rejected [OF lg b j v]
  have params: "\<lparr>pw_Provider = ProviderMidtrans, pw_OrderID = OrderID (webhook0 ''ab01''),
                   pw_TransactionID = TransactionID (webhook0 ''ab01''),
                   pw_Status = mapMidtransStatus (TransactionStatus (webhook0 ''ab01''))
                                 (FraudStatus (webhook0 ''ab01'')),
                   pw_PaidAt = (if SettlementTime (webhook0 ''ab01'') \<noteq> ''''
                                then time_Parse env0 ''2006-01-02 15:04:05''
                                       (SettlementTime (webhook0 ''ab01''))
                                else 0),
                   RawPayload = ''signed''\<rparr> = params0 StatusPaid"
    by (simp add: webhook0_def params0_def mapMidtransStatus_def)
  have signed: "fst (HandleMidtrans env0 h world0 (request0 ''signed''))
                  = Inr (respondJSON StatusOK (JSONObject [(''status'', ''ok'')]))"
    "map pay_Status (payments (snd (HandleMidtrans env0 h world0 (request0 ''signed''))))
       = [StatusPaid]"
    using ProcessWebhook_world0_paid
    by (simp_all add: HandleMidtrans_signed[OF logWebhook_eq [OF repo] b2 j2 v2] params Let_def
          ProcessWebhook_logs)
  note rejected = HandleMidtrans_rejected_effect [OF repo b j v, of world0]
  have retry: "fst (HandleMidtrans env0 h
            (snd (HandleMidtrans env0 h world0 (request0 ''forged''))) (request0 ''signed''))
       = fst (HandleMidtrans env0 h world0 (request0 ''signed''))"
    "payments (snd (HandleMidtrans env0 h
            (snd (HandleMidtrans env0 h world0 (request0 ''forged''))) (request0 ''signed'')))
       = payments (snd (HandleMidtrans env0 h world0 (request0 ''signed'')))"
    using rejected by blast+
  have logs0: "webhook_logs world0 = []" by (simp add: world0_def)
  have "fst (HandleMidtrans env0 h world0 (request0 ''forged''))
       = Inr (respondError StatusUnauthorized ''INVALID_SIGNATURE'' ''Invalid webhook signature'')"
    "snd (HandleMidtrans env0 h world0 (request0 ''forged''))
       = world0\<lparr>webhook_logs :=
          [\<lparr>row_id = 0, row_provider = ''midtrans'', row_event_type = '''', row_external_id = '''',
           row_raw_payload = ''null'', row_signature = '''', row_ip_address = ''203.0.113.7'',
           row_created_at = 1000\<rparr>]\<rparr>"
    by (simp_all add: first)
  with logs0 signed retry show ?thesis unfolding h_def [symmetric] by simp
qed

end
